theory Spec2Isabelle
  imports Main "HOL-Library.Char_ord" "HOL-Library.List_Lexorder" "HOL-Library.AList"
begin

section \<open>Strings and JavaScript values\<close>

text \<open>
  A JavaScript string is modelled as a \<open>string\<close>, a list of code units; HOL's \<open>char\<close> has
  eight bits, so the strings of the model are the Latin-1 ones. Strings are compared the way
  JavaScript's \<open><\<close> compares them, code unit by code unit, a proper prefix being smaller:
  the lexicographic order on lists over the order of \<open>char\<close>. Numbers are modelled as
  integers: the counts of the source are far below \<open>2^53\<close>, where its double precision
  arithmetic is exact, and what \<open>parseInt\<close> reads is rounded as the source rounds it.
\<close>

definition code :: "char \<Rightarrow> nat" where
  "code c = of_char c"


text \<open>\<open>key.endsWith(suffix)\<close>\<close>

definition endsWith :: "string \<Rightarrow> string \<Rightarrow> bool" where
  "endsWith s suffix =
     (length suffix \<le> length s \<and> drop (length s - length suffix) s = suffix)"

text \<open>The decimal rendering of a non-negative integer, as \<open>String(i)\<close> gives for an index.\<close>

fun showNat :: "nat \<Rightarrow> string" where
  "showNat n =
     (if n < 10 then [char_of (48 + n)]
      else showNat (n div 10) @ [char_of (48 + n mod 10)])"

declare showNat.simps [simp del]

text \<open>Zero-padding to a width, as moment's \<open>YYYY\<close>, \<open>MM\<close> and \<open>DD\<close> tokens do.\<close>

definition zeroFill :: "nat \<Rightarrow> nat \<Rightarrow> string" where
  "zeroFill width n = replicate (width - length (showNat n)) (CHR ''0'') @ showNat n"

subsection \<open>parseInt and safeParseInt\<close>

text \<open>
  \<open>parseInt(v)\<close> with no radix, following ECMAScript: the argument is first converted to a
  string (\<open>ToString\<close>), leading white space is skipped, an optional sign is read, a prefix
  \<open>0x\<close> or \<open>0X\<close> selects radix 16, and the longest run of digits of the radix is the
  number; with no digit the result is \<open>NaN\<close>, here \<open>None\<close>.

  The model starts after \<open>ToString\<close>: a cell is given as the string \<open>ToString\<close> returns for
  it. A string cell is itself, the number \<open>12.9\<close> is \<open>''12.9''\<close>, an integer number
  below \<open>10^21\<close> is its decimal digits, and a missing cell (\<open>undefined\<close>) is
  \<open>''undefined''\<close>.
\<close>

definition isWhiteSpace :: "char \<Rightarrow> bool" where
  "isWhiteSpace c = (code c \<in> {9, 10, 11, 12, 13, 32, 160})"

text \<open>The value of a character as a digit (\<open>0-9\<close>, \<open>a-z\<close>, \<open>A-Z\<close>), 36 for any other.\<close>

definition digitValue :: "char \<Rightarrow> nat" where
  "digitValue c =
     (let n = code c in
      if 48 \<le> n \<and> n \<le> 57 then n - 48
      else if 97 \<le> n \<and> n \<le> 122 then n - 87
      else if 65 \<le> n \<and> n \<le> 90 then n - 55
      else 36)"

definition isRadixDigit :: "nat \<Rightarrow> char \<Rightarrow> bool" where
  "isRadixDigit R c = (digitValue c < R)"

definition radixValue :: "nat \<Rightarrow> string \<Rightarrow> nat" where
  "radixValue R Z = foldl (\<lambda>acc c. acc * R + digitValue c) 0 Z"

text \<open>
  The result of \<open>parseInt\<close> is a Number, a double: the integer read is rounded to 53
  significant bits, to the nearest such value and to the even one of two equally near.
  \<open>toDouble\<close> is that rounding on the non-negative integers; it is the identity up to
  \<open>2^53\<close>. Of a run of more than 20 significant decimal digits an implementation may
  read the digits after the 20th as 0, and an integer that rounds to \<open>2^1024\<close> or more
  becomes \<open>Infinity\<close>, which the integers of the model do not have: the model is for
  cells whose digit runs stay below these limits, and the statements that give the rounded
  value of a run are for runs of at most 20 digits.
\<close>

fun bitLength :: "nat \<Rightarrow> nat" where
  "bitLength n = (if n = 0 then 0 else Suc (bitLength (n div 2)))"

declare bitLength.simps [simp del]

definition toDouble :: "nat \<Rightarrow> nat" where
  "toDouble n =
     (let e = bitLength n - 53;
          q = n div 2 ^ e;
          r = n mod 2 ^ e
      in if 2 ^ e < 2 * r \<or> (2 * r = 2 ^ e \<and> odd q) then (q + 1) * 2 ^ e else q * 2 ^ e)"

definition parseInt :: "string \<Rightarrow> int option" where
  "parseInt inputString =
     (let S = dropWhile isWhiteSpace inputString;
          sign = (if S \<noteq> [] \<and> hd S = CHR ''-'' then - 1 else 1);
          S1 = (if S \<noteq> [] \<and> (hd S = CHR ''+'' \<or> hd S = CHR ''-'') then tl S else S);
          stripPrefix = (take 2 S1 = ''0x'' \<or> take 2 S1 = ''0X'');
          R = (if stripPrefix then 16 else 10);
          S2 = (if stripPrefix then drop 2 S1 else S1);
          Z = takeWhile (isRadixDigit R) S2
      in if Z = [] then None else Some (sign * int (toDouble (radixValue R Z))))"

text \<open>Helper method to do parseInt safely (reverts to 0 if unparse).\<close>

definition safeParseInt :: "string \<Rightarrow> int" where
  "safeParseInt v = (case parseInt v of None \<Rightarrow> 0 | Some result \<Rightarrow> result)"


section \<open>Input records\<close>

text \<open>
  A row of the patient sheet. An absent or empty \<open>dateAnnounced\<close> or \<open>detectedCityTown\<close>
  is falsy in the source; \<open>None\<close> and \<open>Some ''''\<close> are the falsy values here.
\<close>

record patient =
  patientId :: int
  dateAnnounced :: "string option"
  detectedPrefecture :: string
  detectedCityTown :: "string option"
  confirmedPatient :: bool
  patientStatus :: string
  cruisePassengerDisembarked :: int
  cruiseQuarantineOfficer :: int

definition truthy :: "string option \<Rightarrow> bool" where
  "truthy v = (v \<noteq> None \<and> v \<noteq> Some [])"

text \<open>A row of the "Sum By Day" sheet; the cells as \<open>parseInt\<close> sees them.\<close>

record manualDailyRow =
  date_m :: string
  recovered_m :: string
  deceased_m :: string
  critical_m :: string
  tested_m :: string

text \<open>A row of the "Prefecture Data" sheet.\<close>

record manualPrefectureRow =
  prefecture_r :: string
  recovered_r :: string
  deaths_r :: string
  prefectureJa_r :: string

section \<open>Objects used as dictionaries\<close>

text \<open>
  \<open>dailySummary\<close>, \<open>prefectureSummary\<close> and \<open>confirmedByCity\<close> are plain objects used as
  dictionaries. They are modelled as association lists with distinct keys in insertion
  order: \<open>map_of\<close> reads a key, \<open>AList.update\<close> stores a value (a new key goes to the end),
  \<open>AList.map_entry\<close> changes the object stored under a key. \<open>_.toPairs\<close> and \<open>_.keys\<close>
  enumerate a dictionary in insertion order. This is what the JavaScript object does for
  keys that are ordinary property names: the model does not cover a date, region or city
  that is the name of an inherited property of \<open>Object.prototype\<close> (such as
  \<open>constructor\<close>) or a canonical array index (which JavaScript enumerates first).
\<close>

type_synonym 'v dict = "(string \<times> 'v) list"

definition toPairs :: "'v dict \<Rightarrow> (string \<times> 'v) list" where
  "toPairs d = d"

definition has :: "'v dict \<Rightarrow> string \<Rightarrow> bool" where
  "has d k = (map_of d k \<noteq> None)"

section \<open>The daily summary\<close>

text \<open>
  An entry of the daily summary is one object that gains properties as
  \<open>generateDailySummary\<close> goes on. Each stage is a record extending the one before, so that
  no property is read before the source has set it. The fields are in the order in which
  the source creates the properties.
\<close>

record counters =
  confirmed :: int
  recoveredCumulative :: int
  deceasedCumulative :: int
  criticalCumulative :: int
  testedCumulative :: int

record dated = counters +
  date :: string

record withCumulative = dated +
  confirmedCumulative :: int

record dailySum = withCumulative +
  confirmedAvg3d :: int
  confirmedCumulativeAvg3d :: int
  confirmedAvg7d :: int
  confirmedCumulativeAvg7d :: int

subsection \<open>Verification of the daily summary\<close>

text \<open>
  The source throws strings; the three messages are the three errors of the specification:
  "Expecting more than 10 days of data." is \<open>InsufficientHistory\<close>, "\<open>key\<close> for the latest
  day is 0." is \<open>StaleCumulative key\<close>, and "Duplicated patientIds detected \<open>duplicates\<close>" is
  \<open>DuplicateCaseId duplicates\<close>.
\<close>

datatype validationError =
    InsufficientHistory
  | StaleCumulative string
  | DuplicateCaseId "int list"

text \<open>\<open>_.keys(latestDay)\<close>: the names of the properties of an entry, an array of strings.\<close>

definition keys :: "dailySum \<Rightarrow> string list" where
  "keys latestDay =
     [''confirmed'', ''recoveredCumulative'', ''deceasedCumulative'', ''criticalCumulative'',
      ''testedCumulative'', ''date'', ''confirmedCumulative'', ''confirmedAvg3d'',
      ''confirmedCumulativeAvg3d'', ''confirmedAvg7d'', ''confirmedCumulativeAvg7d'']"

text \<open>
  \<open>for (let key in array)\<close> enumerates the enumerable property names of the array, which
  are its indices as strings, \<open>''0''\<close>, \<open>''1''\<close>, ... (the prototypes of an array have no
  enumerable property); it does not enumerate the elements.
\<close>

definition forIn :: "'a list \<Rightarrow> string list" where
  "forIn array = map showNat [0 ..< length array]"

text \<open>
  \<open>latestDay[key]\<close> where the source reads it, that is for a \<open>key\<close> that ends in
  \<open>Cumulative\<close>: the number stored under that name, or \<open>None\<close> when the entry has no
  property of that name (\<open>undefined\<close>).
\<close>

definition cumulativeProperty :: "dailySum \<Rightarrow> string \<Rightarrow> int option" where
  "cumulativeProperty latestDay key =
     (if key = ''recoveredCumulative'' then Some (recoveredCumulative latestDay)
      else if key = ''deceasedCumulative'' then Some (deceasedCumulative latestDay)
      else if key = ''criticalCumulative'' then Some (criticalCumulative latestDay)
      else if key = ''testedCumulative'' then Some (testedCumulative latestDay)
      else if key = ''confirmedCumulative'' then Some (confirmedCumulative latestDay)
      else None)"

text \<open>
  The test of the loop body, \<open>key.endsWith('Cumulative')\<close> and then \<open>latestDay[key] < 1\<close>;
  \<open>undefined < 1\<close> is false.
\<close>

definition isStale :: "dailySum \<Rightarrow> string \<Rightarrow> bool" where
  "isStale latestDay key =
     (endsWith key ''Cumulative'' \<and>
      (case cumulativeProperty latestDay key of None \<Rightarrow> False | Some v \<Rightarrow> v < 1))"

definition verifyDailySummary :: "dailySum list \<Rightarrow> validationError + dailySum list" where
  "verifyDailySummary dailySummary =
     (if length dailySummary < 10 then Inl InsufficientHistory
      else
        let latestDay = last dailySummary in
        case find (isStale latestDay) (forIn (keys latestDay)) of
          Some key \<Rightarrow> Inl (StaleCumulative key)
        | None \<Rightarrow> Inr dailySummary)"

subsection \<open>Verification of the patients\<close>

text \<open>
  The loop of \<open>verifyPatients\<close>. \<open>patientIds\<close> is an object used as a set of the ids seen
  so far, modelled as the list of those ids; \<open>duplicates\<close> grows at its end.
\<close>

fun scanPatients :: "int list \<Rightarrow> int list \<Rightarrow> patient list \<Rightarrow> int list" where
  "scanPatients patientIds duplicates [] = duplicates"
| "scanPatients patientIds duplicates (patient # rest) =
     (if patientId patient = - 1 then scanPatients patientIds duplicates rest
      else if patientId patient \<in> set patientIds
        then scanPatients (patientId patient # patientIds)
               (duplicates @ [patientId patient]) rest
      else scanPatients (patientId patient # patientIds) duplicates rest)"

definition verifyPatients :: "patient list \<Rightarrow> validationError + patient list" where
  "verifyPatients patients =
     (let duplicates = scanPatients [] [] patients in
      if length duplicates > 0 then Inl (DuplicateCaseId duplicates)
      else Inr patients)"

subsection \<open>Building the daily summary\<close>

definition newDay :: counters where
  "newDay = \<lparr>confirmed = 0, recoveredCumulative = 0, deceasedCumulative = 0,
             criticalCumulative = 0, testedCumulative = 0\<rparr>"

text \<open>The body of the loop over the patients.\<close>

definition addPatient :: "counters dict \<Rightarrow> patient \<Rightarrow> counters dict" where
  "addPatient dailySummary patient =
     (if \<not> truthy (dateAnnounced patient) then dailySummary
      else
        let key = the (dateAnnounced patient);
            created = (if \<not> has dailySummary key
                       then AList.update key newDay dailySummary
                       else dailySummary)
        in if confirmedPatient patient
           then AList.map_entry key
                  (\<lambda>day. day\<lparr>confirmed := confirmed day + 1\<rparr>) created
           else created)"

text \<open>The body of the loop over the manually sourced rows.\<close>

definition mergeRow :: "counters dict \<Rightarrow> manualDailyRow \<Rightarrow> counters dict" where
  "mergeRow dailySummary row =
     (if has dailySummary (date_m row)
      then AList.map_entry (date_m row)
             (\<lambda>day. day\<lparr>recoveredCumulative := safeParseInt (recovered_m row),
                         deceasedCumulative := safeParseInt (deceased_m row),
                         criticalCumulative := safeParseInt (critical_m row),
                         testedCumulative := safeParseInt (tested_m row)\<rparr>) dailySummary
      else dailySummary)"

text \<open>
  \<open>_.map(_.sortBy(_.toPairs(dailySummary), a => a[0]), v => { o = v[1]; o.date = v[0] })\<close>.
  \<open>_.sortBy\<close> is a stable ascending sort, as \<open>sort_key\<close> is.
\<close>

definition attachDate :: "string \<times> counters \<Rightarrow> dated" where
  "attachDate v = counters.extend (snd v) (dated.fields (fst v))"

definition orderByDate :: "counters dict \<Rightarrow> dated list" where
  "orderByDate dailySummary = map attachDate (sort_key fst (toPairs dailySummary))"

text \<open>Calculate the confirmedCumulative by iterating through all the days in order.\<close>

fun addCumulative :: "int \<Rightarrow> dated list \<Rightarrow> withCumulative list" where
  "addCumulative running [] = []"
| "addCumulative running (dailySum # rest) =
     (let running = running + confirmed dailySum
      in dated.extend dailySum (withCumulative.fields running) # addCumulative running rest)"

text \<open>
  Calculate a rolling 3/7 day average for confirmed. \<open>slideBuffer\<close> is the push followed by
  the slice that keeps the last \<open>window\<close> values; \<open>Math.floor(_.sum(buffer) / window)\<close> is
  \<open>div\<close>, which rounds down on the integers.
\<close>

definition slideBuffer :: "nat \<Rightarrow> int list \<Rightarrow> int \<Rightarrow> int list" where
  "slideBuffer window buffer v =
     (let pushed = buffer @ [v] in
      if length pushed > window then drop (length pushed - window) pushed else pushed)"

fun addAverages ::
  "int list \<Rightarrow> int list \<Rightarrow> int \<Rightarrow> int \<Rightarrow> withCumulative list \<Rightarrow> dailySum list" where
  "addAverages threeDayBuffer sevenDayBuffer cumulativeAvg3d cumulativeAvg7d [] = []"
| "addAverages threeDayBuffer sevenDayBuffer cumulativeAvg3d cumulativeAvg7d (dailySum # rest) =
     (let threeDayBuffer = slideBuffer 3 threeDayBuffer (confirmed dailySum);
          sevenDayBuffer = slideBuffer 7 sevenDayBuffer (confirmed dailySum);
          avg3d = sum_list threeDayBuffer div 3;
          cumulativeAvg3d = cumulativeAvg3d + avg3d;
          avg7d = sum_list sevenDayBuffer div 7;
          cumulativeAvg7d = cumulativeAvg7d + avg7d
      in withCumulative.extend dailySum
           (dailySum.fields avg3d cumulativeAvg3d avg7d cumulativeAvg7d)
         # addAverages threeDayBuffer sevenDayBuffer cumulativeAvg3d cumulativeAvg7d rest)"

text \<open>
  For dates we don't have any manually entered data, pass those forward. \<open>previousDay\<close> is
  the entry before, as the loop has left it.
\<close>

definition passForward :: "dailySum \<Rightarrow> dailySum \<Rightarrow> dailySum" where
  "passForward previousDay thisDay =
     thisDay\<lparr>
       recoveredCumulative :=
         (if recoveredCumulative thisDay = 0 then recoveredCumulative previousDay
          else recoveredCumulative thisDay),
       deceasedCumulative :=
         (if deceasedCumulative thisDay = 0 then deceasedCumulative previousDay
          else deceasedCumulative thisDay),
       criticalCumulative :=
         (if criticalCumulative thisDay = 0 then criticalCumulative previousDay
          else criticalCumulative thisDay),
       testedCumulative :=
         (if testedCumulative thisDay = 0 then testedCumulative previousDay
          else testedCumulative thisDay)\<rparr>"

fun fillFrom :: "dailySum \<Rightarrow> dailySum list \<Rightarrow> dailySum list" where
  "fillFrom previousDay [] = []"
| "fillFrom previousDay (thisDay # rest) =
     (let thisDay = passForward previousDay thisDay in thisDay # fillFrom thisDay rest)"

definition forwardFill :: "dailySum list \<Rightarrow> dailySum list" where
  "forwardFill orderedDailySummary =
     (case orderedDailySummary of
        [] \<Rightarrow> []
      | firstDay # rest \<Rightarrow> firstDay # fillFrom firstDay rest)"

text \<open>The entries as they are before \<open>verifyDailySummary\<close> sees them.\<close>

definition groupByDate :: "patient list \<Rightarrow> manualDailyRow list \<Rightarrow> counters dict" where
  "groupByDate patients manualDailyData =
     foldl mergeRow (foldl addPatient [] patients) manualDailyData"

definition orderedDailySummary :: "patient list \<Rightarrow> manualDailyRow list \<Rightarrow> dailySum list" where
  "orderedDailySummary patients manualDailyData =
     forwardFill (addAverages [] [] 0 0
       (addCumulative 0 (orderByDate (groupByDate patients manualDailyData))))"

definition generateDailySummary ::
  "patient list \<Rightarrow> manualDailyRow list \<Rightarrow> validationError + dailySum list" where
  "generateDailySummary patients manualDailyData =
     verifyDailySummary (orderedDailySummary patients manualDailyData)"

section \<open>The prefecture summary\<close>

subsection \<open>Calendar days and the clock\<close>

text \<open>
  \<open>generateDailyStatsForPrefecture\<close> walks the calendar with the moment library, in the
  time zone of the process. \<open>day\<close> starts as \<open>moment('2020-01-08')\<close>, the start of that
  calendar day, and \<open>day.add(1, 'days')\<close> moves it to the next calendar day at the same
  time of day. \<open>lastDay\<close> is \<open>moment().utcOffset(540)\<close>, the instant the clock gives:
  the offset changes how \<open>lastDay\<close> is printed, not the instant. \<open>day <= lastDay\<close>
  compares the two instants.

  A calendar day is an integer, the days since 1970-01-01, and an instant is an integer,
  the milliseconds since 1970-01-01T00:00Z. The clock and the time zone of the process are
  a parameter of the model, a \<open>clock\<close>: \<open>now\<close> is the instant the clock gives, and
  \<open>zone d\<close> is what separates the instant at which \<open>day\<close> stands on calendar day \<open>d\<close>
  from the midnight of \<open>d\<close> in UTC. It is minus the offset of the zone (0 for a process in
  UTC, minus nine hours for one nine hours ahead of UTC), plus the time of day at which
  \<open>day\<close> stands, which is 0 until a change of the clocks at midnight moves it. It is
  less than a day in any time zone, and \<open>startOfDay\<close> cuts it to a day.
  \<open>formatDay\<close> is \<open>day.format('YYYY-MM-DD')\<close>, the calendar day in the Gregorian
  calendar, for the days from year 0 on.
\<close>

definition msPerDay :: int where
  "msPerDay = 86400000"

record clock =
  zone :: "int \<Rightarrow> int"
  now :: int

definition startOfDay :: "clock \<Rightarrow> int \<Rightarrow> int" where
  "startOfDay clock d = d * msPerDay + max (- msPerDay) (min msPerDay (zone clock d))"

definition civil :: "int \<Rightarrow> int \<times> int \<times> int" where
  "civil day =
     (let z = day + 719468;
          era = z div 146097;
          doe = z - era * 146097;
          yoe = (doe - doe div 1460 + doe div 36524 - doe div 146096) div 365;
          doy = doe - (365 * yoe + yoe div 4 - yoe div 100);
          mp = (5 * doy + 2) div 153;
          d = doy - (153 * mp + 2) div 5 + 1;
          m = (if mp < 10 then mp + 3 else mp - 9);
          y = yoe + era * 400 + (if m \<le> 2 then 1 else 0)
      in (y, m, d))"

definition formatDay :: "int \<Rightarrow> string" where
  "formatDay day =
     (case civil day of
        (y, m, d) \<Rightarrow> zeroFill 4 (nat y) @ ''-'' @ zeroFill 2 (nat m) @ ''-'' @ zeroFill 2 (nat d))"

text \<open>\<open>moment('2020-01-08')\<close>: the calendar day 18269 days after 1970-01-01.\<close>

definition firstDay :: int where
  "firstDay = 18269"

subsection \<open>The entries\<close>

text \<open>
  The object of a prefecture: the properties of the result (\<open>prefectureStats\<close>), to which
  the accumulator adds the list \<open>patients\<close> and the result the \<open>name\<close>. A property that
  the source may leave out is an option. \<open>confirmed_p\<close> is the property \<open>confirmed\<close> and
  \<open>patients_p\<close> the property \<open>patients\<close>.
\<close>

record prefectureStats =
  confirmed_p :: int
  cruisePassenger :: int
  cruiseWorker :: int
  deaths :: int
  confirmedByCity :: "int dict"
  dailyConfirmedCount :: "int list option"
  dailyConfirmedStartDate :: "string option"
  newlyConfirmed :: "int option"
  recovered :: "int option"
  name_ja :: "string option"

record prefectureSum = prefectureStats +
  patients_p :: "patient list"

record prefecture = prefectureStats +
  name :: string

definition newPrefecture :: prefectureSum where
  "newPrefecture =
     \<lparr>confirmed_p = 0, cruisePassenger = 0, cruiseWorker = 0, deaths = 0,
      confirmedByCity = [], dailyConfirmedCount = None, dailyConfirmedStartDate = None,
      newlyConfirmed = None, recovered = None, name_ja = None, patients_p = []\<rparr>"

subsection \<open>Grouping the patients\<close>

definition countCity :: "int dict \<Rightarrow> string \<Rightarrow> int dict" where
  "countCity cities cityName =
     (case map_of cities cityName of
        Some n \<Rightarrow> if n \<noteq> 0 then AList.update cityName (n + 1) cities
                  else AList.update cityName 1 cities
      | None \<Rightarrow> AList.update cityName 1 cities)"

definition countConfirmed :: "patient \<Rightarrow> prefectureSum \<Rightarrow> prefectureSum" where
  "countConfirmed patient p =
     (let p1 = p\<lparr>confirmed_p := confirmed_p p + 1\<rparr>;
          p2 = (if truthy (detectedCityTown patient)
                then p1\<lparr>confirmedByCity :=
                           countCity (confirmedByCity p1) (the (detectedCityTown patient))\<rparr>
                else p1);
          p3 = (if cruisePassengerDisembarked patient = 1
                then p2\<lparr>cruisePassenger := cruisePassenger p2 + 1\<rparr> else p2)
      in if cruiseQuarantineOfficer patient = 1
         then p3\<lparr>cruiseWorker := cruiseWorker p3 + 1\<rparr> else p3)"

definition countPatient :: "patient \<Rightarrow> prefectureSum \<Rightarrow> prefectureSum" where
  "countPatient patient p =
     (let p1 = (if confirmedPatient patient then countConfirmed patient p else p);
          p2 = (if patientStatus patient = ''Deceased''
                then p1\<lparr>deaths := deaths p1 + 1\<rparr> else p1)
      in p2\<lparr>patients_p := patients_p p2 @ [patient]\<rparr>)"

text \<open>The body of the loop over the patients.\<close>

definition addToPrefecture :: "prefectureSum dict \<Rightarrow> patient \<Rightarrow> prefectureSum dict" where
  "addToPrefecture prefectureSummary patient =
     (let prefectureName = detectedPrefecture patient;
          created = (if \<not> has prefectureSummary prefectureName
                     then AList.update prefectureName newPrefecture prefectureSummary
                     else prefectureSummary)
      in AList.map_entry prefectureName (countPatient patient) created)"

subsection \<open>The daily counts of a prefecture\<close>

function dailyStatsLoop :: "patient list \<Rightarrow> clock \<Rightarrow> int \<Rightarrow> int list \<Rightarrow> int list" where
  "dailyStatsLoop patients lastDay day daily =
     (if startOfDay lastDay day \<le> now lastDay
      then
        let dayString = formatDay day;
            reports = filter (\<lambda>q. dateAnnounced q = Some dayString \<and> confirmedPatient q)
                        patients
        in dailyStatsLoop patients lastDay (day + 1) (daily @ [int (length reports)])
      else daily)"
  by pat_completeness auto
termination
proof (relation "measure (\<lambda>(patients, lastDay, day, daily).
    nat ((now lastDay + msPerDay) div msPerDay + 1 - day))")
  show "wf (measure (\<lambda>(patients, lastDay, day, daily).
    nat ((now lastDay + msPerDay) div msPerDay + 1 - day)))"
    by simp
next
  fix patients :: "patient list" and lastDay :: clock and day :: int and daily :: "int list"
    and dayString reports
  assume started: "startOfDay lastDay day \<le> now lastDay"
  have positive: "0 < msPerDay"
    by (simp add: msPerDay_def)
  have "- msPerDay \<le> max (- msPerDay) (min msPerDay (zone lastDay day))"
    by (rule max.cobounded1)
  then have "day * msPerDay \<le> now lastDay + msPerDay"
    using started unfolding startOfDay_def by linarith
  then have "(day * msPerDay) div msPerDay \<le> (now lastDay + msPerDay) div msPerDay"
    using positive by (rule zdiv_mono1)
  then have "day \<le> (now lastDay + msPerDay) div msPerDay"
    using positive by simp
  then show "((patients, lastDay, day + 1, daily @ [int (length reports)]),
      patients, lastDay, day, daily)
    \<in> measure (\<lambda>(patients, lastDay, day, daily).
        nat ((now lastDay + msPerDay) div msPerDay + 1 - day))"
    by simp
qed

declare dailyStatsLoop.simps [simp del]

definition generateDailyStatsForPrefecture :: "clock \<Rightarrow> patient list \<Rightarrow> int \<Rightarrow> int list" where
  "generateDailyStatsForPrefecture lastDay patients first = dailyStatsLoop patients lastDay first []"

text \<open>The body of the loop over the keys of \<open>prefectureSummary\<close>.\<close>

definition addDailyStats :: "clock \<Rightarrow> prefectureSum \<Rightarrow> prefectureSum" where
  "addDailyStats lastDay p =
     (let dailyConfirmed = generateDailyStatsForPrefecture lastDay (patients_p p) firstDay in
      if length dailyConfirmed \<noteq> 0
      then p\<lparr>dailyConfirmedCount := Some dailyConfirmed,
             dailyConfirmedStartDate := Some (formatDay firstDay),
             newlyConfirmed := Some (last dailyConfirmed)\<rparr>
      else p)"

subsection \<open>Manual data, stripping and ordering\<close>

definition importRow :: "prefectureSum dict \<Rightarrow> manualPrefectureRow \<Rightarrow> prefectureSum dict" where
  "importRow prefectureSummary row =
     (if has prefectureSummary (prefecture_r row)
      then AList.map_entry (prefecture_r row)
             (\<lambda>p. p\<lparr>recovered := Some (safeParseInt (recovered_r row)),
                     deaths := safeParseInt (deaths_r row),
                     name_ja := Some (prefectureJa_r row)\<rparr>) prefectureSummary
      else prefectureSummary)"

text \<open>Strip out patients list: \<open>_.mapValues\<close> with \<open>delete v['patients']\<close>.\<close>

definition stripPatients :: "prefectureSum dict \<Rightarrow> prefectureStats dict" where
  "stripPatients prefectureSummary = map (\<lambda>(k, v). (k, prefectureStats.truncate v)) prefectureSummary"

definition attachName :: "string \<times> prefectureStats \<Rightarrow> prefecture" where
  "attachName v = prefectureStats.extend (snd v) (prefecture.fields (fst v))"

text \<open>
  The accumulators after the three loops, and the result: \<open>_.sortBy\<close> on \<open>confirmed\<close>,
  \<open>_.reverse\<close>, and the map that attaches the key as \<open>name\<close>.
\<close>

definition groupByPrefecture ::
  "clock \<Rightarrow> patient list \<Rightarrow> manualPrefectureRow list \<Rightarrow> prefectureSum dict" where
  "groupByPrefecture lastDay patients manualPrefectureData =
     foldl importRow
       (map (\<lambda>(k, v). (k, addDailyStats lastDay v)) (foldl addToPrefecture [] patients))
       manualPrefectureData"

definition generatePrefectureSummary ::
  "clock \<Rightarrow> patient list \<Rightarrow> manualPrefectureRow list \<Rightarrow> prefecture list" where
  "generatePrefectureSummary lastDay patients manualPrefectureData =
     map attachName
       (rev (sort_key (\<lambda>a. confirmed_p (snd a))
          (toPairs (stripPatients (groupByPrefecture lastDay patients manualPrefectureData)))))"

section \<open>Example inputs\<close>

definition person :: "int \<Rightarrow> string \<Rightarrow> string option \<Rightarrow> bool \<Rightarrow> patient" where
  "person i region day isConfirmed =
     \<lparr>patientId = i, dateAnnounced = day, detectedPrefecture = region,
      detectedCityTown = None, confirmedPatient = isConfirmed,
      patientStatus = ''Hospitalized'', cruisePassengerDisembarked = 0,
      cruiseQuarantineOfficer = 0\<rparr>"

text \<open>One confirmed patient on each of ten consecutive days.\<close>

definition tenDays :: "patient list" where
  "tenDays = map (\<lambda>day. person 1 ''Tokyo'' (Some day) True)
     [''2020-01-08'', ''2020-01-09'', ''2020-01-10'', ''2020-01-11'', ''2020-01-12'',
      ''2020-01-13'', ''2020-01-14'', ''2020-01-15'', ''2020-01-16'', ''2020-01-17'']"

text \<open>An entry whose four manually sourced counters all hold \<open>v\<close>.\<close>

definition exampleDay :: "int \<Rightarrow> dailySum" where
  "exampleDay v =
     \<lparr>confirmed = 1, recoveredCumulative = v, deceasedCumulative = v, criticalCumulative = v,
      testedCumulative = v, date = ''2020-01-08'', confirmedCumulative = 1, confirmedAvg3d = 0,
      confirmedCumulativeAvg3d = 0, confirmedAvg7d = 0, confirmedCumulativeAvg7d = 0\<rparr>"

text \<open>Four days with 1, 2, 3 and 4 confirmed patients, before the averages are added.\<close>

definition fourDays :: "withCumulative list" where
  "fourDays = addCumulative 0 (map (\<lambda>(day, n). attachDate (day, newDay\<lparr>confirmed := n\<rparr>))
     [(''2020-01-08'', 1), (''2020-01-09'', 2), (''2020-01-10'', 3), (''2020-01-11'', 4)])"

text \<open>Three regions with 5, 20 and 1 confirmed patients.\<close>

definition threeRegions :: "patient list" where
  "threeRegions =
     replicate 5 (person 1 ''Osaka'' (Some ''2020-01-08'') True) @
     replicate 20 (person 1 ''Tokyo'' (Some ''2020-01-09'') True) @
     [person 1 ''Chiba'' None True]"

text \<open>
  One instant, 2020-01-08T16:00Z, which is 2020-01-09T01:00 nine hours ahead of UTC, on the
  clock of a process in UTC and on the clock of a process nine hours ahead of UTC.
\<close>

definition afternoon :: int where
  "afternoon = firstDay * msPerDay + 57600000"

definition processInUtc :: clock where
  "processInUtc = \<lparr>zone = (\<lambda>d. 0), now = afternoon\<rparr>"

definition processInTokyo :: clock where
  "processInTokyo = \<lparr>zone = (\<lambda>d. - 32400000), now = afternoon\<rparr>"

text \<open>
  A process in Havana in March 2020: five hours behind UTC until the clocks go from
  midnight to one o'clock on 2020-03-08, four hours behind UTC after. \<open>day\<close> stands at
  midnight up to 2020-03-07 and at one o'clock from 2020-03-08 on, which is five hours
  after the midnight of UTC on every day. The clock gives 2020-03-10T04:30Z, which is
  2020-03-10T00:30 in Havana and 2020-03-10T13:30 nine hours ahead of UTC.
\<close>

definition processInHavana :: clock where
  "processInHavana = \<lparr>zone = (\<lambda>d. 18000000), now = 18331 * msPerDay + 16200000\<rparr>"

text \<open>A confirmed patient announced on the day after the first day.\<close>

definition announcedNext :: patient where
  "announcedNext = person 1 ''Tokyo'' (Some ''2020-01-09'') True"

text \<open>A confirmed patient with no date of announcement.\<close>

definition undated :: patient where
  "undated = person 7 ''Tokyo'' None True"

section \<open>Notions used in the statements\<close>

text \<open>
  What the loop of \<open>verifyPatients\<close> appends to \<open>duplicates\<close>: the ids other than \<open>-1\<close>
  that it meets when they are already seen, either before the loop or earlier in it.
\<close>

definition pushed :: "int list \<Rightarrow> patient list \<Rightarrow> int set" where
  "pushed seen ps =
     {i. i \<noteq> - 1 \<and> i \<in> set (map patientId ps) \<and>
         (i \<in> set seen \<or> 1 < count_list (map patientId ps) i)}"

text \<open>The four manually sourced counters of an entry.\<close>

definition manualFields :: "(dailySum \<Rightarrow> int) set" where
  "manualFields = {recoveredCumulative, deceasedCumulative, criticalCumulative, testedCumulative}"

text \<open>The last \<open>window\<close> values of a list, all of them when there are fewer.\<close>

definition lastValues :: "nat \<Rightarrow> int list \<Rightarrow> int list" where
  "lastValues window seen = drop (length seen - window) seen"

text \<open>The accumulator of region \<open>k\<close> after the loop over the patients.\<close>

definition regionAcc :: "string \<Rightarrow> patient list \<Rightarrow> prefectureSum" where
  "regionAcc k ps =
     foldl (\<lambda>v p. countPatient p v) newPrefecture (filter (\<lambda>p. detectedPrefecture p = k) ps)"

text \<open>What a manual row writes into the accumulator of its region.\<close>

definition override :: "manualPrefectureRow \<Rightarrow> prefectureSum \<Rightarrow> prefectureSum" where
  "override row p =
     p\<lparr>recovered := Some (safeParseInt (recovered_r row)),
       deaths := safeParseInt (deaths_r row),
       name_ja := Some (prefectureJa_r row)\<rparr>"

text \<open>
  The accumulator of region \<open>k\<close> after the daily counts and the manual rows, and the entry
  of the result made of it.
\<close>

definition finish ::
  "clock \<Rightarrow> manualPrefectureRow list \<Rightarrow> string \<Rightarrow> prefectureSum \<Rightarrow> prefectureSum" where
  "finish clock rows k v =
     foldl (\<lambda>v row. if k = prefecture_r row then override row v else v)
       (addDailyStats clock v) rows"

definition entryOf ::
  "clock \<Rightarrow> patient list \<Rightarrow> manualPrefectureRow list \<Rightarrow> string \<Rightarrow> prefecture" where
  "entryOf clock ps rows k =
     attachName (k, prefectureStats.truncate (finish clock rows k (regionAcc k ps)))"

text \<open>
  The number of confirmed patients of a list announced on a calendar day, and the calendar
  day of an instant nine hours ahead of UTC.
\<close>

definition reportsOn :: "patient list \<Rightarrow> int \<Rightarrow> int" where
  "reportsOn ps day =
     int (length (filter (\<lambda>q. dateAnnounced q = Some (formatDay day) \<and> confirmedPatient q) ps))"

definition clockDate :: "int \<Rightarrow> int" where
  "clockDate instant = (instant + 32400000) div msPerDay"


section \<open>Properties of the defensive parser\<close>

























section \<open>Properties of the verification\<close>

subsection \<open>The daily summary\<close>

text \<open>
  The loop of \<open>verifyDailySummary\<close> runs over the indices of the array of keys, and no
  index ends in \<open>Cumulative\<close>: the loop never throws.
\<close>

lemma forIn_keys:
  "list_all (\<lambda>key. \<not> endsWith key ''Cumulative'') (forIn (keys latestDay))"
  unfolding forIn_def keys_def by code_simp

lemma no_stale_key: "find (isStale latestDay) (forIn (keys latestDay)) = None"
  using forIn_keys[of latestDay] by (auto simp: find_None_iff list_all_iff isStale_def)

lemma verifyDailySummary_cases:
  "verifyDailySummary dailySummary =
     (if length dailySummary < 10 then Inl InsufficientHistory else Inr dailySummary)"
  by (simp add: verifyDailySummary_def no_stale_key)

text \<open>
  C1. The claim is that \<open>verifyDailySummary\<close> fails with \<open>StaleCumulative\<close> on a series of
  at least ten entries whose latest entry has a \<open>*Cumulative\<close> field below 1. The code does
  not: \<open>verifyDailySummary\<close> returns \<open>StaleCumulative\<close> on no series at all. For the ten
  patients of \<open>tenDays\<close> and no manual data, every entry has \<open>recoveredCumulative = 0\<close>, and
  \<open>generateDailySummary\<close> returns the ten entries. The test of the loop body is right:
  tried on the keys of the latest entry, instead of on the indices of the array of keys,
  it finds \<open>recoveredCumulative\<close>.
\<close>

theorem verifyDailySummary_never_stale:
  "verifyDailySummary dailySummary \<noteq> Inl (StaleCumulative key) \<and>
   length (orderedDailySummary tenDays []) = 10 \<and>
   map recoveredCumulative (orderedDailySummary tenDays []) = [0, 0, 0, 0, 0, 0, 0, 0, 0, 0] \<and>
   generateDailySummary tenDays [] = Inr (orderedDailySummary tenDays []) \<and>
   find (isStale (last (orderedDailySummary tenDays [])))
     (keys (last (orderedDailySummary tenDays []))) = Some ''recoveredCumulative''"
proof -
  have len: "length (orderedDailySummary tenDays []) = 10"
    by code_simp
  have stale:
    "map recoveredCumulative (orderedDailySummary tenDays []) = [0, 0, 0, 0, 0, 0, 0, 0, 0, 0]"
    by code_simp
  have intended: "find (isStale (last (orderedDailySummary tenDays [])))
     (keys (last (orderedDailySummary tenDays []))) = Some ''recoveredCumulative''"
    by code_simp
  show ?thesis
    using len stale intended by (simp add: verifyDailySummary_cases generateDailySummary_def)
qed

text \<open>
  C6. \<open>verifyDailySummary\<close> fails with \<open>InsufficientHistory\<close> exactly when the series has
  fewer than 10 entries: it fails on every series of 9 entries, and it returns a series of
  10 or more entries unchanged when the latest entry has all its \<open>*Cumulative\<close> fields at
  least 1.
\<close>

theorem verifyDailySummary_insufficient_history:
  "(verifyDailySummary dailySummary = Inl InsufficientHistory \<longleftrightarrow> length dailySummary < 10) \<and>
   (length dailySummary = 9 \<longrightarrow> verifyDailySummary dailySummary = Inl InsufficientHistory) \<and>
   (10 \<le> length dailySummary \<and>
    1 \<le> recoveredCumulative (last dailySummary) \<and>
    1 \<le> deceasedCumulative (last dailySummary) \<and>
    1 \<le> criticalCumulative (last dailySummary) \<and>
    1 \<le> testedCumulative (last dailySummary) \<and>
    1 \<le> confirmedCumulative (last dailySummary) \<longrightarrow>
      verifyDailySummary dailySummary = Inr dailySummary)"
  by (simp add: verifyDailySummary_cases)

theorem verifyDailySummary_insufficient_history_witness:
  "verifyDailySummary (replicate 9 (exampleDay 1)) = Inl InsufficientHistory \<and>
   verifyDailySummary (replicate 10 (exampleDay 1)) = Inr (replicate 10 (exampleDay 1))"
proof -
  have nine: "length (replicate 9 (exampleDay 1)) = 9"
    by simp
  have ten: "10 \<le> length (replicate 10 (exampleDay 1)) \<and>
    1 \<le> recoveredCumulative (last (replicate 10 (exampleDay 1))) \<and>
    1 \<le> deceasedCumulative (last (replicate 10 (exampleDay 1))) \<and>
    1 \<le> criticalCumulative (last (replicate 10 (exampleDay 1))) \<and>
    1 \<le> testedCumulative (last (replicate 10 (exampleDay 1))) \<and>
    1 \<le> confirmedCumulative (last (replicate 10 (exampleDay 1)))"
    by (simp add: exampleDay_def)
  show ?thesis
    using verifyDailySummary_insufficient_history[of "replicate 9 (exampleDay 1)"] nine
      verifyDailySummary_insufficient_history[of "replicate 10 (exampleDay 1)"] ten
    by blast
qed

subsection \<open>The patients\<close>

lemma pushed_Nil: "pushed seen [] = {}"
  by (simp add: pushed_def)

lemma in_pushed_Cons:
  "i \<in> pushed seen (p # ps) \<longleftrightarrow>
     i \<noteq> - 1 \<and> (if i = patientId p then i \<in> set seen \<or> i \<in> set (map patientId ps)
                else i \<in> pushed seen ps)"
proof (cases "i = patientId p")
  case True
  have "1 < count_list (map patientId ps) i + 1 \<longleftrightarrow> i \<in> set (map patientId ps)"
    using count_list_0_iff[of "map patientId ps" i] by arith
  then show ?thesis using True by (simp add: pushed_def)
next
  case False
  then show ?thesis by (simp add: pushed_def)
qed

lemma in_pushed_seen:
  "i \<in> pushed (j # seen) ps \<longleftrightarrow>
     i \<in> pushed seen ps \<or> (i = j \<and> j \<noteq> - 1 \<and> j \<in> set (map patientId ps))"
  by (simp add: pushed_def; blast)

lemma pushed_sentinel: "patientId p = - 1 \<Longrightarrow> pushed seen (p # ps) = pushed seen ps"
  unfolding set_eq_iff in_pushed_Cons by (simp add: pushed_def)

lemma pushed_seen:
  "patientId p \<noteq> - 1 \<Longrightarrow> patientId p \<in> set seen \<Longrightarrow>
   pushed seen (p # ps) = insert (patientId p) (pushed (patientId p # seen) ps)"
  unfolding set_eq_iff insert_iff in_pushed_Cons in_pushed_seen
  by (simp add: pushed_def; blast)

lemma pushed_new:
  "patientId p \<noteq> - 1 \<Longrightarrow> patientId p \<notin> set seen \<Longrightarrow>
   pushed seen (p # ps) = pushed (patientId p # seen) ps"
  unfolding set_eq_iff in_pushed_Cons in_pushed_seen
  by (simp add: pushed_def; blast)

lemma scanPatients_set:
  "set (scanPatients seen dups ps) = set dups \<union> pushed seen ps"
proof (induction ps arbitrary: seen dups)
  case Nil
  then show ?case by (simp add: pushed_Nil)
next
  case (Cons p ps)
  show ?case
  proof (cases "patientId p = - 1")
    case True
    then show ?thesis using Cons.IH[of seen dups] by (simp add: pushed_sentinel)
  next
    case False
    show ?thesis
    proof (cases "patientId p \<in> set seen")
      case True
      then show ?thesis
        using False Cons.IH[of "patientId p # seen" "dups @ [patientId p]"]
        by (simp add: pushed_seen)
    next
      case notin: False
      then show ?thesis
        using False Cons.IH[of "patientId p # seen" dups]
        by (simp add: pushed_new)
    qed
  qed
qed

lemma pushed_start:
  "pushed [] ps = {i. i \<noteq> - 1 \<and> 1 < count_list (map patientId ps) i}"
proof -
  have "i \<in> set (map patientId ps)" if "1 < count_list (map patientId ps) i" for i
    using that count_list_0_iff[of "map patientId ps" i]
    by (cases "i \<in> set (map patientId ps)") simp_all
  then show ?thesis unfolding pushed_def by (simp del: set_map) blast
qed

lemma verifyPatients_cases:
  "verifyPatients patients =
     (if scanPatients [] [] patients = [] then Inr patients
      else Inl (DuplicateCaseId (scanPatients [] [] patients)))"
  by (simp add: verifyPatients_def Let_def)

lemma scanPatients_start:
  "set (scanPatients [] [] patients) =
     {i. i \<noteq> - 1 \<and> 1 < count_list (map patientId patients) i}"
  by (simp add: scanPatients_set pushed_start)

text \<open>
  C5. \<open>verifyPatients\<close> either returns its input unchanged, and then no id other than
  \<open>-1\<close> occurs more than once, or fails with \<open>DuplicateCaseId\<close>, and the ids it lists are
  exactly the ids other than \<open>-1\<close> that occur more than once. Records whose id is \<open>-1\<close>
  never make it fail, however many there are, and two records with id 42 make it fail
  listing 42.
\<close>

theorem verifyPatients_duplicate_ids:
  "(verifyPatients patients = Inr patients \<and>
      {i. i \<noteq> - 1 \<and> 1 < count_list (map patientId patients) i} = {}
    \<or> (\<exists>duplicates. verifyPatients patients = Inl (DuplicateCaseId duplicates) \<and>
          set duplicates = {i. i \<noteq> - 1 \<and> 1 < count_list (map patientId patients) i} \<and>
          duplicates \<noteq> [])) \<and>
   ((\<forall>p \<in> set patients. patientId p = - 1) \<longrightarrow> verifyPatients patients = Inr patients) \<and>
   (patientId a = 42 \<and> patientId b = 42 \<longrightarrow>
      verifyPatients [a, b] = Inl (DuplicateCaseId [42]))"
proof (intro conjI impI)
  show "verifyPatients patients = Inr patients \<and>
      {i. i \<noteq> - 1 \<and> 1 < count_list (map patientId patients) i} = {}
    \<or> (\<exists>duplicates. verifyPatients patients = Inl (DuplicateCaseId duplicates) \<and>
          set duplicates = {i. i \<noteq> - 1 \<and> 1 < count_list (map patientId patients) i} \<and>
          duplicates \<noteq> [])"
  proof (cases "scanPatients [] [] patients = []")
    case True
    then show ?thesis
      using scanPatients_start[of patients] by (simp add: verifyPatients_cases)
  next
    case False
    then show ?thesis
      using scanPatients_start[of patients] by (simp add: verifyPatients_cases)
  qed
next
  assume sentinel: "\<forall>p \<in> set patients. patientId p = - 1"
  have "count_list (map patientId patients) i = 0" if "i \<noteq> - 1" for i
    using that sentinel by (auto simp: count_list_0_iff)
  then have "set (scanPatients [] [] patients) = {}"
    unfolding scanPatients_start by auto
  then show "verifyPatients patients = Inr patients"
    by (simp add: verifyPatients_cases)
next
  assume "patientId a = 42 \<and> patientId b = 42"
  then show "verifyPatients [a, b] = Inl (DuplicateCaseId [42])"
    by (simp add: verifyPatients_def)
qed

theorem verifyPatients_duplicate_ids_witness:
  "verifyPatients (replicate 3 (person (- 1) ''Tokyo'' None True)) =
     Inr (replicate 3 (person (- 1) ''Tokyo'' None True)) \<and>
   verifyPatients [person 42 ''Tokyo'' None True, person 42 ''Osaka'' None False] =
     Inl (DuplicateCaseId [42])"
proof -
  have a: "\<forall>p \<in> set (replicate 3 (person (- 1) ''Tokyo'' None True)). patientId p = - 1"
    by (simp add: person_def)
  have b: "patientId (person 42 ''Tokyo'' None True) = 42 \<and>
           patientId (person 42 ''Osaka'' None False) = 42"
    by (simp add: person_def)
  show ?thesis
    using verifyPatients_duplicate_ids[of "replicate 3 (person (- 1) ''Tokyo'' None True)"
        "person 42 ''Tokyo'' None True" "person 42 ''Osaka'' None False"] a b
    by blast
qed

section \<open>Properties of the daily summary\<close>

subsection \<open>Forward fill\<close>

lemma length_fillFrom: "length (fillFrom previousDay xs) = length xs"
  by (induction xs arbitrary: previousDay) (simp_all add: Let_def)

lemma fillFrom_nth:
  "i < length xs \<Longrightarrow>
   fillFrom previousDay xs ! i =
     passForward (if i = 0 then previousDay else fillFrom previousDay xs ! (i - 1)) (xs ! i)"
proof (induction xs arbitrary: previousDay i)
  case Nil
  then show ?case by simp
next
  case (Cons x xs)
  show ?case
  proof (cases i)
    case 0
    then show ?thesis by (simp add: Let_def)
  next
    case (Suc j)
    then have "j < length xs" using Cons.prems by simp
    from Cons.IH[OF this, of "passForward previousDay x"] Suc
    show ?thesis by (cases j) (simp_all add: Let_def)
  qed
qed

lemma length_forwardFill: "length (forwardFill xs) = length xs"
  by (cases xs) (simp_all add: forwardFill_def length_fillFrom)

lemma forwardFill_first: "xs \<noteq> [] \<Longrightarrow> forwardFill xs ! 0 = xs ! 0"
  by (cases xs) (simp_all add: forwardFill_def)

lemma forwardFill_nth:
  "0 < i \<Longrightarrow> i < length xs \<Longrightarrow>
   forwardFill xs ! i = passForward (forwardFill xs ! (i - 1)) (xs ! i)"
proof (cases xs)
  case Nil
  then show "i < length xs \<Longrightarrow> ?thesis" by simp
next
  case (Cons x rest)
  assume "0 < i" "i < length xs"
  then obtain j where j: "i = Suc j" "j < length rest"
    using Cons by (cases i) simp_all
  show ?thesis
    using fillFrom_nth[OF j(2), of x] j Cons
    by (cases j) (simp_all add: forwardFill_def)
qed

lemma passForward_field:
  "field \<in> manualFields \<Longrightarrow>
   field (passForward previousDay thisDay) =
     (if field thisDay = 0 then field previousDay else field thisDay)"
  by (auto simp: manualFields_def passForward_def)

lemma passForward_other:
  "confirmed (passForward p t) = confirmed t"
  "date (passForward p t) = date t"
  "confirmedCumulative (passForward p t) = confirmedCumulative t"
  "confirmedAvg3d (passForward p t) = confirmedAvg3d t"
  "confirmedCumulativeAvg3d (passForward p t) = confirmedCumulativeAvg3d t"
  "confirmedAvg7d (passForward p t) = confirmedAvg7d t"
  "confirmedCumulativeAvg7d (passForward p t) = confirmedCumulativeAvg7d t"
  by (simp_all add: passForward_def)

lemma forwardFill_step:
  "length (forwardFill series) = length series \<and>
   (series \<noteq> [] \<longrightarrow> forwardFill series ! 0 = series ! 0) \<and>
   (\<forall>field \<in> manualFields. \<forall>i. 0 < i \<and> i < length series \<longrightarrow>
      field (forwardFill series ! i) =
        (if field (series ! i) = 0 then field (forwardFill series ! (i - 1))
         else field (series ! i)) \<and>
      (field (series ! i) = 0 \<and> field (series ! (i - 1)) \<noteq> 0 \<longrightarrow>
         field (forwardFill series ! i) = field (series ! (i - 1))))"
proof (intro conjI ballI allI impI)
  show "length (forwardFill series) = length series"
    by (rule length_forwardFill)
next
  assume "series \<noteq> []"
  then show "forwardFill series ! 0 = series ! 0" by (rule forwardFill_first)
next
  fix field :: "dailySum \<Rightarrow> int" and i
  assume f: "field \<in> manualFields" and i: "0 < i \<and> i < length series"
  then show step: "field (forwardFill series ! i) =
        (if field (series ! i) = 0 then field (forwardFill series ! (i - 1))
         else field (series ! i))"
    by (simp add: forwardFill_nth passForward_field)
  assume z: "field (series ! i) = 0 \<and> field (series ! (i - 1)) \<noteq> 0"
  have prev: "field (forwardFill series ! (i - 1)) = field (series ! (i - 1))"
  proof (cases "i - 1")
    case 0
    moreover have "series \<noteq> []" using i by auto
    ultimately show ?thesis using forwardFill_first[of series] by simp
  next
    case (Suc k)
    then have "0 < i - 1" "i - 1 < length series" using i by arith+
    then show ?thesis using z f by (simp add: forwardFill_nth passForward_field)
  qed
  show "field (forwardFill series ! i) = field (series ! (i - 1))"
    using step z prev by simp
qed

subsection \<open>The dictionary of days\<close>

lemma update_values:
  "P v \<Longrightarrow> \<forall>x \<in> set d. P (snd x) \<Longrightarrow> \<forall>x \<in> set (AList.update k v d). P (snd x)"
  by (induction d) auto

lemma map_entry_values:
  "(\<And>v. P v \<Longrightarrow> P (f v)) \<Longrightarrow> \<forall>x \<in> set d. P (snd x) \<Longrightarrow>
   \<forall>x \<in> set (AList.map_entry k f d). P (snd x)"
  by (induction d) auto

lemma map_entry_keys: "map fst (AList.map_entry k f d) = map fst d"
  by (induction d) auto

lemma addPatient_distinct:
  "distinct (map fst d) \<Longrightarrow> distinct (map fst (addPatient d p))"
  by (simp add: addPatient_def Let_def map_entry_keys AList.distinct_update)

lemma addPatient_nonneg:
  assumes "\<forall>x \<in> set d. 0 \<le> confirmed (snd x)"
  shows "\<forall>x \<in> set (addPatient d p). 0 \<le> confirmed (snd x)"
proof (cases "truthy (dateAnnounced p)")
  case False
  then show ?thesis using assms by (simp add: addPatient_def)
next
  case True
  define k where "k = the (dateAnnounced p)"
  define created where
    "created = (if \<not> has d k then AList.update k newDay d else d)"
  have "\<forall>x \<in> set (AList.update k newDay d). 0 \<le> confirmed (snd x)"
    by (rule update_values[where P = "\<lambda>c. 0 \<le> confirmed c"]) (simp_all add: newDay_def assms)
  then have created: "\<forall>x \<in> set created. 0 \<le> confirmed (snd x)"
    using assms by (simp add: created_def)
  have "\<forall>x \<in> set (AList.map_entry k (\<lambda>day. day\<lparr>confirmed := confirmed day + 1\<rparr>) created).
      0 \<le> confirmed (snd x)"
    by (rule map_entry_values[where P = "\<lambda>c. 0 \<le> confirmed c"]) (simp_all add: created)
  moreover have "addPatient d p =
      (if confirmedPatient p
       then AList.map_entry k (\<lambda>day. day\<lparr>confirmed := confirmed day + 1\<rparr>) created
       else created)"
    using True by (simp add: addPatient_def Let_def k_def created_def)
  ultimately show ?thesis using created by simp
qed

lemma mergeRow_distinct:
  "distinct (map fst d) \<Longrightarrow> distinct (map fst (mergeRow d row))"
  by (simp add: mergeRow_def map_entry_keys)

lemma mergeRow_nonneg:
  assumes "\<forall>x \<in> set d. 0 \<le> confirmed (snd x)"
  shows "\<forall>x \<in> set (mergeRow d row). 0 \<le> confirmed (snd x)"
proof (cases "has d (date_m row)")
  case False
  then show ?thesis using assms by (simp add: mergeRow_def)
next
  case True
  then show ?thesis
    unfolding mergeRow_def if_P[OF True]
    by (intro map_entry_values[where P = "\<lambda>c. 0 \<le> confirmed c"]) (simp_all add: assms)
qed

lemma foldl_invariant:
  "P a \<Longrightarrow> (\<And>a x. P a \<Longrightarrow> P (f a x)) \<Longrightarrow> P (foldl f a xs)"
  by (induction xs arbitrary: a) simp_all

lemma groupByDate_distinct: "distinct (map fst (groupByDate patients manualDailyData))"
  unfolding groupByDate_def
  by (intro foldl_invariant[where P = "\<lambda>d. distinct (map fst d)"]
        mergeRow_distinct addPatient_distinct) simp_all

lemma groupByDate_nonneg:
  "\<forall>x \<in> set (groupByDate patients manualDailyData). 0 \<le> confirmed (snd x)"
  unfolding groupByDate_def
  by (intro foldl_invariant[where P = "\<lambda>d. \<forall>x \<in> set d. 0 \<le> confirmed (snd x)"]
        mergeRow_nonneg addPatient_nonneg) simp_all

subsection \<open>Ordering by date\<close>

lemma attachDate_fields:
  "date (attachDate v) = fst v"
  "confirmed (attachDate v) = confirmed (snd v)"
  by (simp_all add: attachDate_def counters.defs dated.defs)

lemma orderByDate_dates:
  "distinct (map fst d) \<Longrightarrow> sorted_wrt (<) (map date (orderByDate d))"
proof -
  assume d: "distinct (map fst d)"
  have eq: "map date (orderByDate d) = map fst (sort_key fst d)"
    by (simp add: orderByDate_def toPairs_def attachDate_fields comp_def)
  have "distinct (map fst (sort_key fst d))"
    using d by (simp add: distinct_map)
  then show ?thesis
    unfolding eq strict_sorted_iff by simp
qed

lemma orderByDate_nonneg:
  "\<forall>x \<in> set d. 0 \<le> confirmed (snd x) \<Longrightarrow> \<forall>x \<in> set (orderByDate d). 0 \<le> confirmed x"
  by (auto simp: orderByDate_def toPairs_def attachDate_fields)

subsection \<open>The cumulative pass\<close>

lemma withCumulative_fields:
  "confirmed (dated.extend d (withCumulative.fields c)) = confirmed d"
  "date (dated.extend d (withCumulative.fields c)) = date d"
  "confirmedCumulative (dated.extend d (withCumulative.fields c)) = c"
  by (simp_all add: dated.defs withCumulative.defs)

lemma length_addCumulative: "length (addCumulative running xs) = length xs"
  by (induction xs arbitrary: running) (simp_all add: Let_def)

lemma addCumulative_confirmed: "map confirmed (addCumulative running xs) = map confirmed xs"
  by (induction xs arbitrary: running) (simp_all add: Let_def withCumulative_fields)

lemma addCumulative_date: "map date (addCumulative running xs) = map date xs"
  by (induction xs arbitrary: running) (simp_all add: Let_def withCumulative_fields)

lemma addCumulative_nth:
  "i < length xs \<Longrightarrow>
   confirmedCumulative (addCumulative running xs ! i) =
     running + sum_list (take (Suc i) (map confirmed xs))"
proof (induction xs arbitrary: running i)
  case Nil
  then show ?case by simp
next
  case (Cons x xs)
  show ?case
  proof (cases i)
    case 0
    then show ?thesis by (simp add: Let_def withCumulative_fields)
  next
    case (Suc j)
    then have "j < length xs" using Cons.prems by simp
    from Cons.IH[OF this, of "running + confirmed x"] Suc
    show ?thesis by (simp add: Let_def)
  qed
qed

subsection \<open>The rolling averages\<close>

lemma slideBuffer_lastValues:
  "0 < window \<Longrightarrow> slideBuffer window (lastValues window seen) v = lastValues window (seen @ [v])"
proof (cases "window \<le> length seen")
  case True
  assume "0 < window"
  then have "Suc (length seen) - window = Suc (length seen - window)"
    using True by arith
  moreover have "Suc (length seen - (length seen - window)) - window = Suc 0"
    using True by arith
  ultimately show ?thesis
    using True by (simp add: slideBuffer_def lastValues_def Let_def)
next
  case False
  then show ?thesis
    by (simp add: slideBuffer_def lastValues_def Let_def)
qed

lemma dailySum_fields:
  "confirmed (withCumulative.extend d (dailySum.fields a b c e)) = confirmed d"
  "date (withCumulative.extend d (dailySum.fields a b c e)) = date d"
  "confirmedCumulative (withCumulative.extend d (dailySum.fields a b c e)) = confirmedCumulative d"
  "confirmedAvg3d (withCumulative.extend d (dailySum.fields a b c e)) = a"
  "confirmedCumulativeAvg3d (withCumulative.extend d (dailySum.fields a b c e)) = b"
  "confirmedAvg7d (withCumulative.extend d (dailySum.fields a b c e)) = c"
  "confirmedCumulativeAvg7d (withCumulative.extend d (dailySum.fields a b c e)) = e"
  by (simp_all add: withCumulative.defs dailySum.defs)

lemma length_addAverages: "length (addAverages b3 b7 c3 c7 xs) = length xs"
  by (induction xs arbitrary: b3 b7 c3 c7) (simp_all add: Let_def)

lemma addAverages_confirmed: "map confirmed (addAverages b3 b7 c3 c7 xs) = map confirmed xs"
  by (induction xs arbitrary: b3 b7 c3 c7) (simp_all add: Let_def dailySum_fields)

lemma addAverages_date: "map date (addAverages b3 b7 c3 c7 xs) = map date xs"
  by (induction xs arbitrary: b3 b7 c3 c7) (simp_all add: Let_def dailySum_fields)

lemma addAverages_confirmedCumulative:
  "map confirmedCumulative (addAverages b3 b7 c3 c7 xs) = map confirmedCumulative xs"
  by (induction xs arbitrary: b3 b7 c3 c7) (simp_all add: Let_def dailySum_fields)

lemma addAverages_nth:
  "i < length xs \<Longrightarrow>
   confirmedAvg3d (addAverages (lastValues 3 seen) (lastValues 7 seen) c3 c7 xs ! i) =
     sum_list (lastValues 3 (seen @ take (Suc i) (map confirmed xs))) div 3 \<and>
   confirmedAvg7d (addAverages (lastValues 3 seen) (lastValues 7 seen) c3 c7 xs ! i) =
     sum_list (lastValues 7 (seen @ take (Suc i) (map confirmed xs))) div 7"
proof (induction xs arbitrary: seen c3 c7 i)
  case Nil
  then show ?case by simp
next
  case (Cons x xs)
  show ?case
  proof (cases i)
    case 0
    then show ?thesis by (simp add: Let_def dailySum_fields slideBuffer_lastValues)
  next
    case (Suc j)
    then have "j < length xs" using Cons.prems by simp
    from Cons.IH[OF this, of "seen @ [confirmed x]"] Suc
    show ?thesis by (simp add: Let_def slideBuffer_lastValues)
  qed
qed

lemma addAverages_running:
  "i < length xs \<Longrightarrow>
   confirmedCumulativeAvg3d (addAverages b3 b7 c3 c7 xs ! i) =
     c3 + sum_list (take (Suc i) (map confirmedAvg3d (addAverages b3 b7 c3 c7 xs))) \<and>
   confirmedCumulativeAvg7d (addAverages b3 b7 c3 c7 xs ! i) =
     c7 + sum_list (take (Suc i) (map confirmedAvg7d (addAverages b3 b7 c3 c7 xs)))"
proof (induction xs arbitrary: b3 b7 c3 c7 i)
  case Nil
  then show ?case by simp
next
  case (Cons x xs)
  show ?case
  proof (cases i)
    case 0
    then show ?thesis by (simp add: Let_def dailySum_fields)
  next
    case (Suc j)
    then have j: "j < length xs" using Cons.prems by simp
    show ?thesis
      using Suc by (simp add: Let_def dailySum_fields Cons.IH[OF j])
  qed
qed

subsection \<open>Forward fill keeps the other fields\<close>

lemma fillFrom_keeps:
  "(\<And>p t. f (passForward p t) = f t) \<Longrightarrow> map f (fillFrom previousDay xs) = map f xs"
  by (induction xs arbitrary: previousDay) (simp_all add: Let_def)

lemma forwardFill_keeps:
  "(\<And>p t. f (passForward p t) = f t) \<Longrightarrow> map f (forwardFill xs) = map f xs"
  by (cases xs) (simp_all add: forwardFill_def fillFrom_keeps)

subsection \<open>The series as built\<close>

lemma ordered_length:
  "length (orderedDailySummary ps m) = length (orderByDate (groupByDate ps m))"
  by (simp add: orderedDailySummary_def length_forwardFill length_addAverages
        length_addCumulative)

lemma ordered_confirmed:
  "map confirmed (orderedDailySummary ps m) = map confirmed (orderByDate (groupByDate ps m))"
  by (simp add: orderedDailySummary_def forwardFill_keeps passForward_other
        addAverages_confirmed addCumulative_confirmed)

lemma ordered_date:
  "map date (orderedDailySummary ps m) = map date (orderByDate (groupByDate ps m))"
  by (simp add: orderedDailySummary_def forwardFill_keeps passForward_other
        addAverages_date addCumulative_date)

lemma ordered_confirmedCumulative:
  assumes "i < length (orderedDailySummary ps m)"
  shows "confirmedCumulative (orderedDailySummary ps m ! i) =
           sum_list (map confirmed (take (Suc i) (orderedDailySummary ps m)))"
proof -
  let ?D = "orderByDate (groupByDate ps m)"
  have i: "i < length ?D" using assms by (simp add: ordered_length)
  have "map confirmedCumulative (orderedDailySummary ps m) =
          map confirmedCumulative (addCumulative 0 ?D)"
    by (simp add: orderedDailySummary_def forwardFill_keeps passForward_other
          addAverages_confirmedCumulative)
  then have "map confirmedCumulative (orderedDailySummary ps m) ! i =
          map confirmedCumulative (addCumulative 0 ?D) ! i"
    by simp
  then have "confirmedCumulative (orderedDailySummary ps m ! i) =
          confirmedCumulative (addCumulative 0 ?D ! i)"
    using assms i by (simp add: length_addCumulative)
  also have "\<dots> = sum_list (take (Suc i) (map confirmed ?D))"
    using i by (simp add: addCumulative_nth)
  also have "\<dots> = sum_list (map confirmed (take (Suc i) (orderedDailySummary ps m)))"
    unfolding take_map[symmetric] ordered_confirmed ..
  finally show ?thesis .
qed

lemma ordered_nonneg: "\<forall>x \<in> set (orderedDailySummary ps m). 0 \<le> confirmed x"
proof -
  have "\<forall>v \<in> set (map confirmed (orderByDate (groupByDate ps m))). 0 \<le> v"
    using orderByDate_nonneg[OF groupByDate_nonneg, of ps m] by simp
  then have "\<forall>v \<in> set (map confirmed (orderedDailySummary ps m)). 0 \<le> v"
    by (simp only: ordered_confirmed)
  then show ?thesis by simp
qed

lemma ordered_sorted: "sorted (map confirmedCumulative (orderedDailySummary ps m))"
proof -
  let ?S = "orderedDailySummary ps m"
  have "confirmedCumulative (?S ! i) \<le> confirmedCumulative (?S ! Suc i)"
    if "Suc i < length ?S" for i
  proof -
    have "0 \<le> confirmed (?S ! Suc i)"
      using ordered_nonneg[of ps m] that by simp
    moreover have "take (Suc (Suc i)) ?S = take (Suc i) ?S @ [?S ! Suc i]"
      using that by (rule take_Suc_conv_app_nth)
    ultimately show ?thesis
      using that by (simp add: ordered_confirmedCumulative)
  qed
  then show ?thesis by (simp add: sorted_iff_nth_Suc)
qed

lemma generateDailySummary_Inr:
  "generateDailySummary ps m = Inr series \<Longrightarrow> series = orderedDailySummary ps m"
  by (simp add: generateDailySummary_def verifyDailySummary_cases split: if_splits)

lemma tenDays_summary:
  "generateDailySummary tenDays [] = Inr (orderedDailySummary tenDays [])"
proof -
  have "length (orderedDailySummary tenDays []) = 10" by code_simp
  then show ?thesis by (simp add: generateDailySummary_def verifyDailySummary_cases)
qed

text \<open>
  C3. In every series that \<open>generateDailySummary\<close> returns, the dates are strictly
  ascending, \<open>confirmedCumulative\<close> of an entry is the sum of \<open>confirmed\<close> over the entries
  up to and including it, and the sequence of \<open>confirmedCumulative\<close> is non-decreasing.
\<close>

theorem generateDailySummary_cumulative:
  "generateDailySummary patients manualDailyData = Inr series \<Longrightarrow>
   sorted_wrt (<) (map date series) \<and>
   (\<forall>i < length series.
      confirmedCumulative (series ! i) = sum_list (map confirmed (take (Suc i) series))) \<and>
   sorted (map confirmedCumulative series)"
proof -
  assume "generateDailySummary patients manualDailyData = Inr series"
  then have s: "series = orderedDailySummary patients manualDailyData"
    by (rule generateDailySummary_Inr)
  have "sorted_wrt (<) (map date series)"
    unfolding s ordered_date by (rule orderByDate_dates) (rule groupByDate_distinct)
  then show ?thesis
    unfolding s by (simp add: ordered_confirmedCumulative ordered_sorted)
qed

theorem generateDailySummary_cumulative_witness:
  "generateDailySummary tenDays [] = Inr (orderedDailySummary tenDays []) \<and>
   sorted_wrt (<) (map date (orderedDailySummary tenDays [])) \<and>
   confirmedCumulative (orderedDailySummary tenDays [] ! 9) =
     sum_list (map confirmed (take (Suc 9) (orderedDailySummary tenDays []))) \<and>
   sorted (map confirmedCumulative (orderedDailySummary tenDays []))"
proof -
  have "9 < length (orderedDailySummary tenDays [])"
    by code_simp
  then show ?thesis
    using generateDailySummary_cumulative[OF tenDays_summary] tenDays_summary by blast
qed

subsection \<open>The averages of the series\<close>

lemma ordered_averages:
  assumes "i < length (orderedDailySummary ps m)"
  shows "confirmedAvg3d (orderedDailySummary ps m ! i) =
           sum_list (map confirmed (drop (Suc i - 3) (take (Suc i) (orderedDailySummary ps m)))) div 3"
    and "confirmedAvg7d (orderedDailySummary ps m ! i) =
           sum_list (map confirmed (drop (Suc i - 7) (take (Suc i) (orderedDailySummary ps m)))) div 7"
proof -
  let ?S = "orderedDailySummary ps m"
  let ?C = "addCumulative 0 (orderByDate (groupByDate ps m))"
  let ?A = "addAverages [] [] 0 0 ?C"
  have i: "i < length ?C" using assms by (simp add: ordered_length length_addCumulative)
  have iA: "i < length ?A" using i by (simp add: length_addAverages)
  have S: "?S = forwardFill ?A" by (simp add: orderedDailySummary_def)
  have conf: "map confirmed ?C = map confirmed ?S"
    by (simp add: ordered_confirmed addCumulative_confirmed)
  have avg: "confirmedAvg3d (?A ! i) = sum_list (lastValues 3 (take (Suc i) (map confirmed ?C))) div 3 \<and>
        confirmedAvg7d (?A ! i) = sum_list (lastValues 7 (take (Suc i) (map confirmed ?C))) div 7"
    using addAverages_nth[OF i, of "[]" 0 0] by (simp add: lastValues_def)
  have w: "lastValues w (take (Suc i) (map confirmed ?C)) =
             map confirmed (drop (Suc i - w) (take (Suc i) ?S))" for w
  proof -
    have t: "take (Suc i) (map confirmed ?C) = map confirmed (take (Suc i) ?S)"
      unfolding conf take_map ..
    have l: "length (take (Suc i) ?S) = Suc i"
      using assms by simp
    show ?thesis
      unfolding t lastValues_def length_map l drop_map ..
  qed
  have "map confirmedAvg3d ?S ! i = map confirmedAvg3d ?A ! i"
    unfolding S by (simp add: forwardFill_keeps passForward_other)
  then have a3: "confirmedAvg3d (?S ! i) = confirmedAvg3d (?A ! i)"
    using assms iA by simp
  have "map confirmedAvg7d ?S ! i = map confirmedAvg7d ?A ! i"
    unfolding S by (simp add: forwardFill_keeps passForward_other)
  then have a7: "confirmedAvg7d (?S ! i) = confirmedAvg7d (?A ! i)"
    using assms iA by simp
  show "confirmedAvg3d (?S ! i) = sum_list (map confirmed (drop (Suc i - 3) (take (Suc i) ?S))) div 3"
    using avg unfolding a3 w by simp
  show "confirmedAvg7d (?S ! i) = sum_list (map confirmed (drop (Suc i - 7) (take (Suc i) ?S))) div 7"
    using avg unfolding a7 w by simp
qed

lemma ordered_running_averages:
  assumes "i < length (orderedDailySummary ps m)"
  shows "confirmedCumulativeAvg3d (orderedDailySummary ps m ! i) =
           sum_list (map confirmedAvg3d (take (Suc i) (orderedDailySummary ps m)))"
    and "confirmedCumulativeAvg7d (orderedDailySummary ps m ! i) =
           sum_list (map confirmedAvg7d (take (Suc i) (orderedDailySummary ps m)))"
proof -
  let ?S = "orderedDailySummary ps m"
  let ?A = "addAverages [] [] 0 0 (addCumulative 0 (orderByDate (groupByDate ps m)))"
  have S: "?S = forwardFill ?A" by (simp add: orderedDailySummary_def)
  have iA: "i < length ?A" using assms by (simp add: S length_forwardFill)
  have m3: "map confirmedAvg3d ?S = map confirmedAvg3d ?A"
    and m7: "map confirmedAvg7d ?S = map confirmedAvg7d ?A"
    and c3: "map confirmedCumulativeAvg3d ?S = map confirmedCumulativeAvg3d ?A"
    and c7: "map confirmedCumulativeAvg7d ?S = map confirmedCumulativeAvg7d ?A"
    unfolding S by (simp_all add: forwardFill_keeps passForward_other)
  have "map confirmedCumulativeAvg3d ?S ! i = map confirmedCumulativeAvg3d ?A ! i"
    by (simp only: c3)
  then have e3: "confirmedCumulativeAvg3d (?S ! i) = confirmedCumulativeAvg3d (?A ! i)"
    using assms iA by simp
  have "map confirmedCumulativeAvg7d ?S ! i = map confirmedCumulativeAvg7d ?A ! i"
    by (simp only: c7)
  then have e7: "confirmedCumulativeAvg7d (?S ! i) = confirmedCumulativeAvg7d (?A ! i)"
    using assms iA by simp
  have t3: "map confirmedAvg3d (take (Suc i) ?S) = take (Suc i) (map confirmedAvg3d ?A)"
    unfolding take_map[symmetric] m3 ..
  have t7: "map confirmedAvg7d (take (Suc i) ?S) = take (Suc i) (map confirmedAvg7d ?A)"
    unfolding take_map[symmetric] m7 ..
  show "confirmedCumulativeAvg3d (?S ! i) = sum_list (map confirmedAvg3d (take (Suc i) ?S))"
    unfolding e3 t3 using addAverages_running[OF iA[unfolded length_addAverages], of "[]" "[]" 0 0]
    by simp
  show "confirmedCumulativeAvg7d (?S ! i) = sum_list (map confirmedAvg7d (take (Suc i) ?S))"
    unfolding e7 t7 using addAverages_running[OF iA[unfolded length_addAverages], of "[]" "[]" 0 0]
    by simp
qed

lemma window_length:
  "i < length xs \<Longrightarrow> length (drop (Suc i - w) (take (Suc i) xs)) = min w (Suc i)"
proof -
  assume "i < length xs"
  then have l: "length (take (Suc i) xs) = Suc i" by simp
  show ?thesis unfolding length_drop l by arith
qed

lemma addAverages_example:
  assumes "map confirmed days = [1, 2, 3, 4]"
  shows "map confirmedAvg3d (addAverages [] [] 0 0 days) = [0, 1, 2, 3]"
proof -
  obtain a b c d where days: "days = [a, b, c, d]"
    and v: "confirmed a = 1" "confirmed b = 2" "confirmed c = 3" "confirmed d = 4"
    using assms by (auto simp: map_eq_Cons_conv)
  have s1: "slideBuffer 3 [] 1 = [1]" "slideBuffer 3 [1] 2 = [1, 2]"
    "slideBuffer 3 [1, 2] 3 = [1, 2, 3]" "slideBuffer 3 [1, 2, 3] 4 = [2, 3, 4]"
    by (simp_all add: slideBuffer_def)
  have step: "map confirmedAvg3d (addAverages b3 b7 c3 c7 (x # xs)) =
      sum_list (slideBuffer 3 b3 (confirmed x)) div 3 #
      map confirmedAvg3d (addAverages (slideBuffer 3 b3 (confirmed x))
        (slideBuffer 7 b7 (confirmed x))
        (c3 + sum_list (slideBuffer 3 b3 (confirmed x)) div 3)
        (c7 + sum_list (slideBuffer 7 b7 (confirmed x)) div 7) xs)"
    for b3 b7 c3 c7 x xs
    by (simp add: Let_def dailySum_fields)
  show ?thesis
    unfolding days step v s1 by simp
qed

text \<open>
  C2. In every series that \<open>generateDailySummary\<close> returns, at every position \<open>i\<close>
  (counted from 0 here), \<open>confirmedAvg3d\<close> is the sum of \<open>confirmed\<close> over the window of
  the last \<open>min 3 (i + 1)\<close> entries up to \<open>i\<close>, divided by 3 and rounded down, and
  \<open>confirmedAvg7d\<close> the same with 7: the divisor is the nominal size of the window also
  while the window is not full. \<open>confirmedCumulativeAvg3d\<close> and \<open>confirmedCumulativeAvg7d\<close>
  are the running sums of the averages. On days with \<open>confirmed\<close> 1, 2, 3, 4 the pass
  gives the 3-day averages 0, 1, 2, 3.
\<close>

theorem generateDailySummary_averages:
  "(generateDailySummary patients manualDailyData = Inr series \<longrightarrow>
      (\<forall>i < length series.
         confirmedAvg3d (series ! i) =
           sum_list (map confirmed (drop (Suc i - 3) (take (Suc i) series))) div 3 \<and>
         length (drop (Suc i - 3) (take (Suc i) series)) = min 3 (Suc i) \<and>
         confirmedAvg7d (series ! i) =
           sum_list (map confirmed (drop (Suc i - 7) (take (Suc i) series))) div 7 \<and>
         length (drop (Suc i - 7) (take (Suc i) series)) = min 7 (Suc i) \<and>
         confirmedCumulativeAvg3d (series ! i) =
           sum_list (map confirmedAvg3d (take (Suc i) series)) \<and>
         confirmedCumulativeAvg7d (series ! i) =
           sum_list (map confirmedAvg7d (take (Suc i) series)))) \<and>
   (map confirmed days = [1, 2, 3, 4] \<longrightarrow>
      map confirmedAvg3d (addAverages [] [] 0 0 days) = [0, 1, 2, 3])"
proof (intro conjI impI allI)
  fix i
  assume "generateDailySummary patients manualDailyData = Inr series"
  then have s: "series = orderedDailySummary patients manualDailyData"
    by (rule generateDailySummary_Inr)
  assume i: "i < length series"
  show "confirmedAvg3d (series ! i) =
           sum_list (map confirmed (drop (Suc i - 3) (take (Suc i) series))) div 3"
    using i unfolding s by (rule ordered_averages)
  show "confirmedAvg7d (series ! i) =
           sum_list (map confirmed (drop (Suc i - 7) (take (Suc i) series))) div 7"
    using i unfolding s by (rule ordered_averages)
  show "length (drop (Suc i - 3) (take (Suc i) series)) = min 3 (Suc i)"
    using i by (rule window_length)
  show "length (drop (Suc i - 7) (take (Suc i) series)) = min 7 (Suc i)"
    using i by (rule window_length)
  show "confirmedCumulativeAvg3d (series ! i) = sum_list (map confirmedAvg3d (take (Suc i) series))"
    using i unfolding s by (rule ordered_running_averages)
  show "confirmedCumulativeAvg7d (series ! i) = sum_list (map confirmedAvg7d (take (Suc i) series))"
    using i unfolding s by (rule ordered_running_averages)
next
  assume "map confirmed days = [1, 2, 3, 4]"
  then show "map confirmedAvg3d (addAverages [] [] 0 0 days) = [0, 1, 2, 3]"
    by (rule addAverages_example)
qed

theorem generateDailySummary_averages_witness:
  "generateDailySummary tenDays [] = Inr (orderedDailySummary tenDays []) \<and>
   confirmedAvg3d (orderedDailySummary tenDays [] ! 9) =
     sum_list (map confirmed (drop (Suc 9 - 3) (take (Suc 9) (orderedDailySummary tenDays [])))) div 3 \<and>
   confirmedAvg7d (orderedDailySummary tenDays [] ! 1) =
     sum_list (map confirmed (drop (Suc 1 - 7) (take (Suc 1) (orderedDailySummary tenDays [])))) div 7 \<and>
   confirmedAvg7d (orderedDailySummary tenDays [] ! 1) = 0 \<and>
   map confirmedAvg3d (addAverages [] [] 0 0 fourDays) = [0, 1, 2, 3]"
proof -
  have len: "9 < length (orderedDailySummary tenDays [])" "1 < length (orderedDailySummary tenDays [])"
    by code_simp+
  have four: "map confirmed fourDays = [1, 2, 3, 4]"
    by code_simp
  have zero: "confirmedAvg7d (orderedDailySummary tenDays [] ! 1) = 0"
    by code_simp
  show ?thesis
    using generateDailySummary_averages[of tenDays "[]" "orderedDailySummary tenDays []" fourDays]
      tenDays_summary len four zero by blast
qed

section \<open>Properties of the prefecture summary\<close>

subsection \<open>The accumulator of a region\<close>

lemma map_of_addToPrefecture:
  "map_of (addToPrefecture d p) k =
     (if k = detectedPrefecture p
      then Some (countPatient p (case map_of d k of None \<Rightarrow> newPrefecture | Some v \<Rightarrow> v))
      else map_of d k)"
  by (simp add: addToPrefecture_def Let_def has_def map_of_map_entry update_conv'
        split: option.splits)

lemma addToPrefecture_distinct:
  "distinct (map fst d) \<Longrightarrow> distinct (map fst (addToPrefecture d p))"
  by (simp add: addToPrefecture_def Let_def map_entry_keys AList.distinct_update)

lemma grouped_distinct: "distinct (map fst (foldl addToPrefecture [] ps))"
  by (intro foldl_invariant[where P = "\<lambda>d. distinct (map fst d)"] addToPrefecture_distinct)
     simp_all

lemma map_of_grouped:
  "map_of (foldl addToPrefecture [] ps) k =
     (if k \<in> detectedPrefecture ` set ps then Some (regionAcc k ps) else None)"
proof (induction ps rule: rev_induct)
  case Nil
  then show ?case by simp
next
  case (snoc p ps)
  show ?case
  proof (cases "k = detectedPrefecture p")
    case True
    have "filter (\<lambda>q. detectedPrefecture q = k) ps = []"
      if "k \<notin> detectedPrefecture ` set ps"
      using that by (auto simp: filter_empty_conv)
    then show ?thesis
      using snoc True by (auto simp: map_of_addToPrefecture regionAcc_def)
  next
    case False
    then show ?thesis
      using snoc by (auto simp: map_of_addToPrefecture regionAcc_def)
  qed
qed

lemma grouped_entry:
  "(k, v) \<in> set (foldl addToPrefecture [] ps) \<longleftrightarrow>
     k \<in> detectedPrefecture ` set ps \<and> v = regionAcc k ps"
proof -
  have "(k, v) \<in> set (foldl addToPrefecture [] ps) \<longleftrightarrow>
          map_of (foldl addToPrefecture [] ps) k = Some v"
    using grouped_distinct[of ps] by simp
  then show ?thesis by (auto simp: map_of_grouped)
qed

lemma countPatient_fields:
  "patients_p (countPatient p v) = patients_p v @ [p]"
  "confirmed_p (countPatient p v) = confirmed_p v + (if confirmedPatient p then 1 else 0)"
  "dailyConfirmedCount (countPatient p v) = dailyConfirmedCount v"
  "dailyConfirmedStartDate (countPatient p v) = dailyConfirmedStartDate v"
  "newlyConfirmed (countPatient p v) = newlyConfirmed v"
  by (simp_all add: countPatient_def countConfirmed_def Let_def)

lemma countPatient_deaths:
  "deaths (countPatient p v) = deaths v + (if patientStatus p = ''Deceased'' then 1 else 0)"
  by (simp add: countPatient_def countConfirmed_def Let_def)

lemma counted_fields:
  "patients_p (foldl (\<lambda>v p. countPatient p v) v0 qs) = patients_p v0 @ qs"
  "confirmed_p (foldl (\<lambda>v p. countPatient p v) v0 qs) =
     confirmed_p v0 + int (length (filter confirmedPatient qs))"
  "deaths (foldl (\<lambda>v p. countPatient p v) v0 qs) =
     deaths v0 + int (length (filter (\<lambda>p. patientStatus p = ''Deceased'') qs))"
  by (induction qs arbitrary: v0) (simp_all add: countPatient_fields countPatient_deaths)

lemma regionAcc_fields:
  "patients_p (regionAcc k ps) = filter (\<lambda>p. detectedPrefecture p = k) ps"
  "confirmed_p (regionAcc k ps) =
     int (length (filter (\<lambda>p. detectedPrefecture p = k \<and> confirmedPatient p) ps))"
  "deaths (regionAcc k ps) =
     int (length (filter (\<lambda>p. detectedPrefecture p = k \<and> patientStatus p = ''Deceased'') ps))"
  by (simp_all add: regionAcc_def counted_fields newPrefecture_def conj_commute)

subsection \<open>Daily counts and manual rows\<close>

lemma addDailyStats_fields:
  "confirmed_p (addDailyStats clock v) = confirmed_p v"
  "deaths (addDailyStats clock v) = deaths v"
  by (simp_all add: addDailyStats_def Let_def)



lemma map_entry_distinct:
  "distinct (map fst d) \<Longrightarrow>
   AList.map_entry k f d = map (\<lambda>(k', v). (k', if k' = k then f v else v)) d"
proof (induction d)
  case Nil
  then show ?case by simp
next
  case (Cons x d)
  obtain k' v where x: "x = (k', v)" by (cases x)
  show ?case
  proof (cases "k' = k")
    case True
    then have "k \<notin> fst ` set d" using Cons.prems x by auto
    then have "map (\<lambda>(k', v). (k', if k' = k then f v else v)) d = d"
      by (intro map_idI) (auto simp: image_iff)
    then show ?thesis using True x by simp
  next
    case False
    then show ?thesis using Cons x by simp
  qed
qed

lemma importRow_map:
  "distinct (map fst d) \<Longrightarrow>
   importRow d row =
     map (\<lambda>(k, v). (k, if k = prefecture_r row then override row v else v)) d"
proof (cases "has d (prefecture_r row)")
  case True
  assume "distinct (map fst d)"
  then show ?thesis
    using True by (auto simp: importRow_def map_entry_distinct override_def)
next
  case False
  then have "prefecture_r row \<notin> fst ` set d"
    by (simp add: has_def map_of_eq_None_iff)
  then have "map (\<lambda>(k, v). (k, if k = prefecture_r row then override row v else v)) d = d"
    by (intro map_idI) (auto simp: image_iff)
  then show ?thesis using False by (simp add: importRow_def)
qed

lemma imported_map:
  "distinct (map fst d) \<Longrightarrow>
   foldl importRow d rows =
     map (\<lambda>(k, v). (k, foldl (\<lambda>v row. if k = prefecture_r row then override row v else v) v rows)) d"
proof (induction rows arbitrary: d)
  case Nil
  then show ?case by simp
next
  case (Cons row rows)
  have "distinct (map fst (importRow d row))"
    using Cons.prems by (simp add: importRow_def map_entry_keys)
  from Cons.IH[OF this] show ?case
    using Cons.prems by (simp add: importRow_map comp_def split_def)
qed

lemma groupByPrefecture_map:
  "groupByPrefecture clock ps rows =
     map (\<lambda>(k, v). (k, finish clock rows k v)) (foldl addToPrefecture [] ps)"
proof -
  have "distinct (map fst (map (\<lambda>(k, v). (k, addDailyStats clock v))
          (foldl addToPrefecture [] ps)))"
    using grouped_distinct[of ps] by (simp add: comp_def split_def)
  then show ?thesis
    unfolding groupByPrefecture_def
    by (simp add: imported_map finish_def comp_def split_def)
qed

lemma override_fields:
  "confirmed_p (override row v) = confirmed_p v"
  "dailyConfirmedCount (override row v) = dailyConfirmedCount v"
  "dailyConfirmedStartDate (override row v) = dailyConfirmedStartDate v"
  "newlyConfirmed (override row v) = newlyConfirmed v"
  by (simp_all add: override_def)

lemma overridden_fields:
  "confirmed_p (foldl (\<lambda>v row. if k = prefecture_r row then override row v else v) v rows) =
     confirmed_p v"
  "dailyConfirmedCount (foldl (\<lambda>v row. if k = prefecture_r row then override row v else v) v rows) =
     dailyConfirmedCount v"
  "dailyConfirmedStartDate (foldl (\<lambda>v row. if k = prefecture_r row then override row v else v) v rows) =
     dailyConfirmedStartDate v"
  "newlyConfirmed (foldl (\<lambda>v row. if k = prefecture_r row then override row v else v) v rows) =
     newlyConfirmed v"
  by (induction rows arbitrary: v) (simp_all add: override_fields)

lemma not_overridden:
  "k \<notin> prefecture_r ` set rows \<Longrightarrow>
   foldl (\<lambda>v row. if k = prefecture_r row then override row v else v) v rows = v"
  by (induction rows arbitrary: v) auto

subsection \<open>The entries of the result\<close>

lemma attachName_fields:
  "name (attachName (k, s)) = k"
  "confirmed_p (attachName (k, s)) = confirmed_p s"
  "deaths (attachName (k, s)) = deaths s"
  "dailyConfirmedCount (attachName (k, s)) = dailyConfirmedCount s"
  "dailyConfirmedStartDate (attachName (k, s)) = dailyConfirmedStartDate s"
  "newlyConfirmed (attachName (k, s)) = newlyConfirmed s"
  by (simp_all add: attachName_def prefectureStats.defs prefecture.defs)

lemma truncate_fields:
  "confirmed_p (prefectureStats.truncate v) = confirmed_p v"
  "deaths (prefectureStats.truncate v) = deaths v"
  "dailyConfirmedCount (prefectureStats.truncate v) = dailyConfirmedCount v"
  "dailyConfirmedStartDate (prefectureStats.truncate v) = dailyConfirmedStartDate v"
  "newlyConfirmed (prefectureStats.truncate v) = newlyConfirmed v"
  by (simp_all add: prefectureStats.defs)

lemma stripped_map:
  "toPairs (stripPatients (groupByPrefecture clock ps rows)) =
     map (\<lambda>(k, v). (k, prefectureStats.truncate (finish clock rows k v)))
       (foldl addToPrefecture [] ps)"
  by (simp add: toPairs_def stripPatients_def groupByPrefecture_map comp_def split_def)

lemma stripped_keys:
  "map fst (toPairs (stripPatients (groupByPrefecture clock ps rows))) =
     map fst (foldl addToPrefecture [] ps)"
  by (simp add: stripped_map comp_def split_def)

lemma grouped_keys: "set (map fst (foldl addToPrefecture [] ps)) = detectedPrefecture ` set ps"
proof -
  have "k \<in> fst ` set (foldl addToPrefecture [] ps) \<longleftrightarrow> k \<in> detectedPrefecture ` set ps" for k
    using map_of_eq_None_iff[of "foldl addToPrefecture [] ps" k] map_of_grouped[of ps k]
    by (cases "k \<in> detectedPrefecture ` set ps") simp_all
  then show ?thesis by auto
qed

lemma result_set:
  "set (generatePrefectureSummary clock ps rows) =
     entryOf clock ps rows ` detectedPrefecture ` set ps"
proof -
  have "set (generatePrefectureSummary clock ps rows) =
      (\<lambda>(k, v). attachName (k, prefectureStats.truncate (finish clock rows k v))) `
        set (foldl addToPrefecture [] ps)"
    by (simp add: generatePrefectureSummary_def stripped_map image_image split_def)
  also have "\<dots> = entryOf clock ps rows ` detectedPrefecture ` set ps"
  proof (intro set_eqI iffI)
    fix e
    assume "e \<in> (\<lambda>(k, v). attachName (k, prefectureStats.truncate (finish clock rows k v))) `
        set (foldl addToPrefecture [] ps)"
    then obtain k v where kv: "(k, v) \<in> set (foldl addToPrefecture [] ps)"
      and e: "e = attachName (k, prefectureStats.truncate (finish clock rows k v))"
      by auto
    from kv have "k \<in> detectedPrefecture ` set ps" "v = regionAcc k ps"
      by (simp_all add: grouped_entry)
    then show "e \<in> entryOf clock ps rows ` detectedPrefecture ` set ps"
      using e by (simp add: entryOf_def)
  next
    fix e
    assume "e \<in> entryOf clock ps rows ` detectedPrefecture ` set ps"
    then obtain k where k: "k \<in> detectedPrefecture ` set ps" and e: "e = entryOf clock ps rows k"
      by auto
    from k have "(k, regionAcc k ps) \<in> set (foldl addToPrefecture [] ps)"
      by (simp add: grouped_entry)
    then show "e \<in> (\<lambda>(k, v). attachName (k, prefectureStats.truncate (finish clock rows k v))) `
        set (foldl addToPrefecture [] ps)"
      using e by (force simp: entryOf_def)
  qed
  finally show ?thesis .
qed

lemma result_entry:
  "e \<in> set (generatePrefectureSummary clock ps rows) \<Longrightarrow>
   name e \<in> detectedPrefecture ` set ps \<and> e = entryOf clock ps rows (name e)"
  by (auto simp: result_set entryOf_def attachName_fields)

lemma result_names:
  "map name (generatePrefectureSummary clock ps rows) =
     map fst (rev (sort_key (\<lambda>a. confirmed_p (snd a))
       (toPairs (stripPatients (groupByPrefecture clock ps rows)))))"
  by (simp add: generatePrefectureSummary_def comp_def attachName_def
        prefectureStats.defs prefecture.defs)

lemma result_counts:
  "map confirmed_p (generatePrefectureSummary clock ps rows) =
     map (\<lambda>a. confirmed_p (snd a)) (rev (sort_key (\<lambda>a. confirmed_p (snd a))
       (toPairs (stripPatients (groupByPrefecture clock ps rows)))))"
  by (simp add: generatePrefectureSummary_def comp_def attachName_def
        prefectureStats.defs prefecture.defs)

lemma result_names_distinct: "distinct (map name (generatePrefectureSummary clock ps rows))"
proof -
  let ?X = "toPairs (stripPatients (groupByPrefecture clock ps rows))"
  have "distinct (map fst ?X)"
    by (simp only: stripped_keys grouped_distinct)
  then have "distinct ?X" "inj_on fst (set ?X)"
    by (simp_all add: distinct_map)
  then have "distinct (map fst (sort_key (\<lambda>a. confirmed_p (snd a)) ?X))"
    by (simp add: distinct_map)
  then show ?thesis
    unfolding result_names rev_map[symmetric] by simp
qed

lemma result_names_set:
  "set (map name (generatePrefectureSummary clock ps rows)) = detectedPrefecture ` set ps"
proof -
  have "set (map name (generatePrefectureSummary clock ps rows)) =
      set (map fst (toPairs (stripPatients (groupByPrefecture clock ps rows))))"
    unfolding result_names by simp
  then show ?thesis by (simp only: stripped_keys grouped_keys)
qed

lemma result_sorted:
  "sorted (rev (map confirmed_p (generatePrefectureSummary clock ps rows)))"
  unfolding result_counts rev_map[symmetric] by simp

lemma entryOf_confirmed:
  "confirmed_p (entryOf clock ps rows k) =
     int (length (filter (\<lambda>p. detectedPrefecture p = k \<and> confirmedPatient p) ps))"
  by (simp add: entryOf_def attachName_fields truncate_fields finish_def overridden_fields
        addDailyStats_fields regionAcc_fields)

subsection \<open>Ordering of the result\<close>

lemma threeRegions_counts:
  "map (\<lambda>a. confirmed_p (snd a)) (groupByPrefecture processInTokyo threeRegions []) = [5, 20, 1]"
  by code_simp

lemma threeRegions_keys:
  "map fst (groupByPrefecture processInTokyo threeRegions []) = [''Osaka'', ''Tokyo'', ''Chiba'']"
  by code_simp

text \<open>
  C7. The result of \<open>generatePrefectureSummary\<close> is in descending order of \<open>confirmed\<close>.
  Each entry carries the key of its region as \<open>name\<close>: the names are the regions of the
  patients, each once, and \<open>confirmed\<close> of an entry is the number of confirmed patients of
  the region it names. When the regions, in the order of the dictionary, have the counts
  5, 20 and 1, the result has the counts 20, 5, 1, with the names of the second, the first
  and the third region.
\<close>

theorem generatePrefectureSummary_ordered:
  "sorted (rev (map confirmed_p
      (generatePrefectureSummary clock patients manualPrefectureData))) \<and>
   distinct (map name (generatePrefectureSummary clock patients manualPrefectureData)) \<and>
   set (map name (generatePrefectureSummary clock patients manualPrefectureData)) =
     detectedPrefecture ` set patients \<and>
   (\<forall>e \<in> set (generatePrefectureSummary clock patients manualPrefectureData).
      confirmed_p e =
        int (length (filter (\<lambda>p. detectedPrefecture p = name e \<and> confirmedPatient p) patients))) \<and>
   (map (\<lambda>a. confirmed_p (snd a)) (groupByPrefecture clock patients manualPrefectureData) =
      [5, 20, 1] \<longrightarrow>
    map confirmed_p (generatePrefectureSummary clock patients manualPrefectureData) =
      [20, 5, 1] \<and>
    map name (generatePrefectureSummary clock patients manualPrefectureData) =
      [map fst (groupByPrefecture clock patients manualPrefectureData) ! 1,
       map fst (groupByPrefecture clock patients manualPrefectureData) ! 0,
       map fst (groupByPrefecture clock patients manualPrefectureData) ! 2])"
proof (intro conjI ballI impI)
  let ?G = "groupByPrefecture clock patients manualPrefectureData"
  let ?X = "toPairs (stripPatients ?G)"
  let ?out = "generatePrefectureSummary clock patients manualPrefectureData"
  show "sorted (rev (map confirmed_p ?out))" by (rule result_sorted)
  show "distinct (map name ?out)" by (rule result_names_distinct)
  show "set (map name ?out) = detectedPrefecture ` set patients" by (rule result_names_set)
  show "confirmed_p e =
      int (length (filter (\<lambda>p. detectedPrefecture p = name e \<and> confirmedPatient p) patients))"
    if "e \<in> set ?out" for e
    using result_entry[OF that] entryOf_confirmed[of clock patients manualPrefectureData "name e"]
    by simp
  assume counts: "map (\<lambda>a. confirmed_p (snd a)) ?G = [5, 20, 1]"
  have X: "map (\<lambda>a. confirmed_p (snd a)) ?X = [5, 20, 1]"
    using counts by (simp add: toPairs_def stripPatients_def comp_def split_def truncate_fields)
  have keys: "map fst ?X = map fst ?G"
    by (simp add: toPairs_def stripPatients_def comp_def split_def)
  obtain a b c where X3: "?X = [a, b, c]"
    and v: "confirmed_p (snd a) = 5" "confirmed_p (snd b) = 20" "confirmed_p (snd c) = 1"
    using X by (auto simp: map_eq_Cons_conv)
  have order: "rev (sort_key (\<lambda>a. confirmed_p (snd a)) ?X) = [b, a, c]"
    unfolding X3 by (simp add: v)
  show "map confirmed_p ?out = [20, 5, 1]"
    unfolding result_counts order by (simp add: v)
  have "map fst ?G = [fst a, fst b, fst c]"
    unfolding keys[symmetric] X3 by simp
  then show "map name ?out = [map fst ?G ! 1, map fst ?G ! 0, map fst ?G ! 2]"
    unfolding result_names order by simp
qed

theorem generatePrefectureSummary_ordered_witness:
  "map confirmed_p (generatePrefectureSummary processInTokyo threeRegions []) = [20, 5, 1] \<and>
   map name (generatePrefectureSummary processInTokyo threeRegions []) =
     [''Tokyo'', ''Osaka'', ''Chiba'']"
  using generatePrefectureSummary_ordered[of processInTokyo threeRegions "[]"]
    threeRegions_counts threeRegions_keys
  by simp

subsection \<open>The last day of the daily counts\<close>

text \<open>
  On a clock whose \<open>zone\<close> is the same on every day, the loop runs over the calendar
  days from \<open>day\<close> to the day of the instant \<open>now - zone\<close>.
\<close>

lemma started_iff:
  assumes "0 < m"
  shows "d * m \<le> x \<longleftrightarrow> d \<le> x div (m::int)"
proof
  assume "d * m \<le> x"
  then have "(d * m) div m \<le> x div m" using assms by (rule zdiv_mono1)
  then show "d \<le> x div m" using assms by simp
next
  assume "d \<le> x div m"
  then have "d * m \<le> (x div m) * m" using assms by (simp add: mult_right_mono)
  also have "\<dots> \<le> x"
  proof -
    have "x div m * m + x mod m = x" by simp
    moreover have "0 \<le> x mod m" using assms by simp
    ultimately show ?thesis by linarith
  qed
  finally show "d * m \<le> x" .
qed

lemma startOfDay_fixed:
  assumes "\<And>d. zone clock d = s" "- msPerDay \<le> s" "s \<le> msPerDay"
  shows "startOfDay clock day \<le> now clock \<longleftrightarrow> day \<le> (now clock - s) div msPerDay"
proof -
  have "startOfDay clock day = day * msPerDay + s"
    using assms by (simp add: startOfDay_def)
  moreover have "day * msPerDay \<le> now clock - s \<longleftrightarrow> day \<le> (now clock - s) div msPerDay"
    by (rule started_iff) (simp add: msPerDay_def)
  ultimately show ?thesis by auto
qed

lemma dailyStatsLoop_fixed:
  assumes "\<And>d. zone clock d = s" "- msPerDay \<le> s" "s \<le> msPerDay"
  shows "dailyStatsLoop ps clock day daily =
           daily @ map (reportsOn ps) [day..(now clock - s) div msPerDay]"
  using assms
proof (induction ps clock day daily rule: dailyStatsLoop.induct)
  case (1 ps clock day daily)
  note guard = startOfDay_fixed[OF "1.prems", of day]
  show ?case
  proof (cases "startOfDay clock day \<le> now clock")
    case True
    then have le: "day \<le> (now clock - s) div msPerDay" using guard by simp
    have "[day..(now clock - s) div msPerDay] = day # [day + 1..(now clock - s) div msPerDay]"
      using le by (simp add: upto_rec1)
    then show ?thesis
      using True "1.IH"[OF True refl refl "1.prems"]
      by (subst dailyStatsLoop.simps) (simp add: Let_def reportsOn_def)
  next
    case False
    then have "\<not> day \<le> (now clock - s) div msPerDay" using guard by simp
    then show ?thesis using False by (subst dailyStatsLoop.simps) simp
  qed
qed

lemma single_patient:
  "map dailyConfirmedCount (generatePrefectureSummary clock [p] []) =
     [if generateDailyStatsForPrefecture clock [p] firstDay = [] then None
      else Some (generateDailyStatsForPrefecture clock [p] firstDay)]"
  by (simp add: generatePrefectureSummary_def groupByPrefecture_def addToPrefecture_def
      has_def toPairs_def stripPatients_def attachName_fields truncate_fields addDailyStats_def
      Let_def countPatient_fields newPrefecture_def)

lemma havana_days:
  "generateDailyStatsForPrefecture processInHavana [announcedNext] firstDay =
     map (reportsOn [announcedNext]) [firstDay..18330]"
proof -
  have "(now processInHavana - 18000000) div msPerDay = 18330"
    by (simp add: processInHavana_def msPerDay_def)
  moreover have "dailyStatsLoop [announcedNext] processInHavana firstDay [] =
      [] @ map (reportsOn [announcedNext]) [firstDay..(now processInHavana - 18000000) div msPerDay]"
    by (rule dailyStatsLoop_fixed) (simp_all add: processInHavana_def msPerDay_def)
  ultimately show ?thesis
    by (simp add: generateDailyStatsForPrefecture_def)
qed

text \<open>
  C8. The claim is that \<open>dailyConfirmedCount\<close> has one entry for each calendar day from
  2020-01-08 to the date of the clock, which the specification takes nine hours ahead of
  UTC, and that \<open>newlyConfirmed\<close> is the count of that last day. The code makes
  \<open>lastDay\<close> with \<open>utcOffset(540)\<close>, and then compares instants: the series ends on the
  last calendar day of the process that has started where \<open>day\<close> stands. At
  2020-01-08T16:00Z the date nine hours ahead of UTC is 2020-01-09. A process in UTC
  gives one entry, for 2020-01-08, and \<open>newlyConfirmed\<close> 0, with a confirmed patient
  announced on 2020-01-09; a process nine hours ahead of UTC gives the two entries and
  \<open>newlyConfirmed\<close> 1 on the same input at the same instant. In Havana at
  2020-03-10T04:30Z the date is 2020-03-10 in the process and nine hours ahead of UTC
  alike, 62 days after 2020-01-08, and the series has 62 entries where the claim asks for 63.
\<close>

theorem dailyConfirmedCount_ends_on_process_day:
  "clockDate afternoon = firstDay + 1 \<and>
   map dailyConfirmedCount (generatePrefectureSummary processInUtc [announcedNext] []) =
     [Some [0]] \<and>
   map newlyConfirmed (generatePrefectureSummary processInUtc [announcedNext] []) = [Some 0] \<and>
   map dailyConfirmedCount (generatePrefectureSummary processInTokyo [announcedNext] []) =
     [Some [0, 1]] \<and>
   map newlyConfirmed (generatePrefectureSummary processInTokyo [announcedNext] []) = [Some 1] \<and>
   clockDate (now processInHavana) = firstDay + 62 \<and>
   map (map_option length)
     (map dailyConfirmedCount (generatePrefectureSummary processInHavana [announcedNext] [])) =
     [Some 62]"
proof (intro conjI)
  show "clockDate afternoon = firstDay + 1"
    by (simp add: clockDate_def afternoon_def firstDay_def msPerDay_def)
  have utc: "map (\<lambda>e. (dailyConfirmedCount e, newlyConfirmed e))
      (generatePrefectureSummary processInUtc [announcedNext] []) = [(Some [0], Some 0)]"
    by code_simp
  have tokyo: "map (\<lambda>e. (dailyConfirmedCount e, newlyConfirmed e))
      (generatePrefectureSummary processInTokyo [announcedNext] []) = [(Some [0, 1], Some 1)]"
    by code_simp
  show "map dailyConfirmedCount (generatePrefectureSummary processInUtc [announcedNext] []) =
     [Some [0]]"
    using arg_cong[OF utc, of "map fst"] by (simp add: comp_def)
  show "map newlyConfirmed (generatePrefectureSummary processInUtc [announcedNext] []) = [Some 0]"
    using arg_cong[OF utc, of "map snd"] by (simp add: comp_def)
  show "map dailyConfirmedCount (generatePrefectureSummary processInTokyo [announcedNext] []) =
     [Some [0, 1]]"
    using arg_cong[OF tokyo, of "map fst"] by (simp add: comp_def)
  show "map newlyConfirmed (generatePrefectureSummary processInTokyo [announcedNext] []) = [Some 1]"
    using arg_cong[OF tokyo, of "map snd"] by (simp add: comp_def)
  show "clockDate (now processInHavana) = firstDay + 62"
    by (simp add: clockDate_def processInHavana_def firstDay_def msPerDay_def)
  have "length (generateDailyStatsForPrefecture processInHavana [announcedNext] firstDay) = 62"
    unfolding havana_days by (simp add: firstDay_def)
  then show "map (map_option length)
     (map dailyConfirmedCount (generatePrefectureSummary processInHavana [announcedNext] [])) =
     [Some 62]"
    unfolding single_patient by auto
qed

end
